theory Spec2Isabelle
  imports Complex_Main "HOL-Library.AList"
begin

section \<open>Exceptions, dynamic values and text\<close>

text \<open>
  Python exceptions are values. \<open>KeyError k\<close> is the failed lookup of key \<open>k\<close> in a
  dict, \<open>TypeError\<close> an arithmetic operation on \<open>None\<close>, \<open>ZeroDivisionError\<close> a floor
  division by zero, and \<open>Raised m\<close> an exception that escapes from a collaborator whose
  code lives outside the two modules (a plugin's \<open>get_stats_display\<close>).

  Python floats are modelled as \<open>real\<close>: comparison, subtraction and floor division are
  the exact ones, rounding is not modelled.
\<close>

datatype error = KeyError string | TypeError | ZeroDivisionError | Raised string

text \<open>Running two fallible steps in order: the first exception raised wins.\<close>

definition bind_err :: "error + 'a \<Rightarrow> ('a \<Rightarrow> error + 'b) \<Rightarrow> error + 'b" where
  "bind_err r f = (case r of Inl e \<Rightarrow> Inl e | Inr v \<Rightarrow> f v)"

text \<open>\<open>d[k]\<close> on a dict: a missing key raises \<open>KeyError\<close>.\<close>

definition lookup :: "(string \<rightharpoonup> 'a) \<Rightarrow> string \<Rightarrow> error + 'a" where
  "lookup m k = (case m k of None \<Rightarrow> Inl (KeyError k) | Some v \<Rightarrow> Inr v)"

text \<open>
  The values that travel between a plugin and the renderer are dynamically typed: a
  plugin's display is a dict whose \<open>'msgdict'\<close> entry is a list of dicts with the keys
  \<open>'msg'\<close>, \<open>'decoration'\<close> and \<open>'optional'\<close>. Nothing forces a plugin to deliver
  that shape, so the renderer's input is any Python value.
\<close>

datatype pyval =
    PNone
  | PBool bool
  | PInt int
  | PStr string
  | PList "pyval list"
  | PDict "(string \<times> pyval) list"

text \<open>Truth value of a Python value in a condition.\<close>

fun truthy :: "pyval \<Rightarrow> bool" where
  "truthy PNone = False"
| "truthy (PBool b) = b"
| "truthy (PInt i) = (i \<noteq> 0)"
| "truthy (PStr s) = (s \<noteq> [])"
| "truthy (PList xs) = (xs \<noteq> [])"
| "truthy (PDict d) = (d \<noteq> [])"

text \<open>\<open>v[k]\<close> with a string key: only a dict accepts it.\<close>

fun subscript :: "pyval \<Rightarrow> string \<Rightarrow> error + pyval" where
  "subscript (PDict d) k = (case map_of d k of None \<Rightarrow> Inl (KeyError k) | Some v \<Rightarrow> Inr v)"
| "subscript v k = Inl TypeError"

text \<open>\<open>for i in v\<close>: a list gives its elements, a string its characters, a dict its keys.\<close>

fun iterate :: "pyval \<Rightarrow> error + pyval list" where
  "iterate (PList xs) = Inr xs"
| "iterate (PStr s) = Inr (map (\<lambda>c. PStr [c]) s)"
| "iterate (PDict d) = Inr (map (\<lambda>kv. PStr (fst kv)) d)"
| "iterate v = Inl TypeError"

text \<open>A list comprehension \<open>[f(i) for i in xs]\<close> whose body may raise.\<close>

fun collect :: "('a \<Rightarrow> error + 'b) \<Rightarrow> 'a list \<Rightarrow> error + 'b list" where
  "collect f [] = Inr []"
| "collect f (x # xs) =
     bind_err (f x) (\<lambda>y. bind_err (collect f xs) (\<lambda>ys. Inr (y # ys)))"

text \<open>The sections of a message are appended in order; the first one that raises ends it.\<close>

fun sections :: "(error + 'a list) list \<Rightarrow> error + 'a list" where
  "sections [] = Inr []"
| "sections (s # ss) = bind_err s (\<lambda>xs. bind_err (sections ss) (\<lambda>ys. Inr (xs @ ys)))"

definition nl :: char where
  "nl = CHR 0x0A"

text \<open>Format specifications \<open>{:N}\<close> (a string, padded on the right) and \<open>{:>N}\<close>.\<close>

definition ljust :: "nat \<Rightarrow> string \<Rightarrow> string" where
  "ljust n s = s @ replicate (n - length s) CHR '' ''"

definition rjust :: "nat \<Rightarrow> string \<Rightarrow> string" where
  "rjust n s = replicate (n - length s) CHR '' '' @ s"

text \<open>\<open>str\<close> of an integer.\<close>

fun str_nat :: "nat \<Rightarrow> string" where
  "str_nat n =
     (if n < 10 then [''0123456789'' ! n]
      else str_nat (n div 10) @ [''0123456789'' ! (n mod 10)])"

declare str_nat.simps [simp del]

definition str_int :: "int \<Rightarrow> string" where
  "str_int i = (if i < 0 then CHR ''-'' # str_nat (nat (- i)) else str_nat (nat i))"

section \<open>The CPU plugin (glances/plugins/cpu/model.py)\<close>

subsection \<open>Data\<close>

text \<open>
  A Snapshot (\<open>self.stats\<close>) is a dict from field names to numbers, kept in insertion
  order: \<open>map_of\<close> reads a key, \<open>AList.update\<close> is the assignment \<open>stats[key] = v\<close>.
\<close>

type_synonym snapshot = "(string \<times> real) list"

text \<open>
  \<open>psutil.cpu_stats()\<close> returns the named tuple \<open>scpustats\<close> of four cumulative
  counters. The source tests each of them against \<open>None\<close>, so each is optional here.
\<close>

record scpustats =
  ctx_switches :: "int option"
  interrupts :: "int option"
  soft_interrupts :: "int option"
  syscalls :: "int option"

definition cpu_stats_fields :: "string list" where
  "cpu_stats_fields = [''ctx_switches'', ''interrupts'', ''soft_interrupts'', ''syscalls'']"

text \<open>\<open>getattr(cpu_stats, stat)\<close> for \<open>stat\<close> ranging over \<open>cpu_stats._fields\<close>.\<close>

definition getattr :: "scpustats \<Rightarrow> string \<Rightarrow> int option" where
  "getattr s stat =
     (if stat = ''ctx_switches'' then ctx_switches s
      else if stat = ''interrupts'' then interrupts s
      else if stat = ''soft_interrupts'' then soft_interrupts s
      else syscalls s)"

text \<open>
  What one call of \<open>update_local\<close> reads from its collaborators: \<open>cpu_percent.get()\<close>,
  the fields of \<open>psutil.cpu_times_percent\<close> in order, \<open>psutil.cpu_stats()\<close> and
  \<open>getTimeSinceLastUpdate('cpu')\<close>.
\<close>

record sample_input =
  total :: real
  cpu_times_percent :: "(string \<times> real) list"
  cpu_stats :: scpustats
  time_since_update :: real

text \<open>
  The plugin object. \<open>cpu_stats_old = None\<close> stands for the attribute not existing yet
  (\<open>not hasattr(self, 'cpu_stats_old')\<close>).
\<close>

record view =
  decoration :: string
  optional :: bool

record cpu_plugin =
  nb_log_core :: int
  cpu_stats_old :: "scpustats option"
  stats :: snapshot
  views :: "string \<rightharpoonup> view"

subsection \<open>update_local\<close>

text \<open>First call: every counter field of the Snapshot is set to 0.\<close>

fun init_counters :: "string list \<Rightarrow> snapshot \<Rightarrow> snapshot" where
  "init_counters [] st = st"
| "init_counters (stat # fs) st = init_counters fs (AList.update stat 0 st)"

text \<open>
  Other calls: \<open>stats[stat] = getattr(cpu_stats, stat) - getattr(self.cpu_stats_old, stat)\<close>
  for each field that is not \<open>None\<close> now. Subtracting \<open>None\<close> raises \<open>TypeError\<close>.
\<close>

fun delta_counters :: "scpustats \<Rightarrow> scpustats \<Rightarrow> string list \<Rightarrow> snapshot \<Rightarrow> error + snapshot" where
  "delta_counters cur old [] st = Inr st"
| "delta_counters cur old (stat # fs) st =
     (case getattr cur stat of
        None \<Rightarrow> delta_counters cur old fs st
      | Some c \<Rightarrow>
          (case getattr old stat of
             None \<Rightarrow> Inl TypeError
           | Some p \<Rightarrow> delta_counters cur old fs (AList.update stat (of_int (c - p)) st)))"

text \<open>
  \<open>update_local\<close> returns the new Snapshot and the plugin with \<open>cpu_stats_old\<close>
  overwritten. \<open>init\<close> is the value of \<open>self.get_init_value()\<close>, a method of the parent
  class. When an exception is raised the plugin is left as it was.
\<close>

definition update_local :: "cpu_plugin \<Rightarrow> snapshot \<Rightarrow> sample_input \<Rightarrow> error + snapshot \<times> cpu_plugin" where
  "update_local self init inp =
     (let st0 = AList.update ''total'' (total inp) init;
          st1 = fold (\<lambda>(stat, v) st. AList.update stat v st) (cpu_times_percent inp) st0;
          st2 = AList.update ''time_since_update'' (time_since_update inp) st1;
          st3 = AList.update ''cpucore'' (of_int (nb_log_core self)) st2
      in case cpu_stats_old self of
           None \<Rightarrow>
             Inr (init_counters cpu_stats_fields st3, self\<lparr>cpu_stats_old := Some (cpu_stats inp)\<rparr>)
         | Some old \<Rightarrow>
             (case delta_counters (cpu_stats inp) old cpu_stats_fields st3 of
                Inl e \<Rightarrow> Inl e
              | Inr st4 \<Rightarrow> Inr (st4, self\<lparr>cpu_stats_old := Some (cpu_stats inp)\<rparr>)))"

text \<open>The value a call emits for one field, and the counters it leaves stored.\<close>

definition emitted :: "error + snapshot \<times> cpu_plugin \<Rightarrow> string \<Rightarrow> real option" where
  "emitted r stat = (case r of Inl e \<Rightarrow> None | Inr (st, self') \<Rightarrow> map_of st stat)"

definition stored :: "error + snapshot \<times> cpu_plugin \<Rightarrow> scpustats option" where
  "stored r = (case r of Inl e \<Rightarrow> None | Inr (st, self') \<Rightarrow> cpu_stats_old self')"

text \<open>Counters as psutil delivers them: four integers.\<close>

definition counters :: "int \<Rightarrow> int \<Rightarrow> int \<Rightarrow> int \<Rightarrow> scpustats" where
  "counters a b c d =
     \<lparr>ctx_switches = Some a, interrupts = Some b, soft_interrupts = Some c, syscalls = Some d\<rparr>"

definition all_counted :: "scpustats \<Rightarrow> bool" where
  "all_counted s \<longleftrightarrow>
     ctx_switches s \<noteq> None \<and> interrupts s \<noteq> None \<and> soft_interrupts s \<noteq> None \<and> syscalls s \<noteq> None"

definition cold_plugin :: cpu_plugin where
  "cold_plugin = \<lparr>nb_log_core = 4, cpu_stats_old = None, stats = [], views = Map.empty\<rparr>"

definition sample_of :: "scpustats \<Rightarrow> real \<Rightarrow> sample_input" where
  "sample_of cs t = \<lparr>total = 97.5, cpu_times_percent = [(''user'', 60), (''system'', 37.5)],
                     cpu_stats = cs, time_since_update = t\<rparr>"

subsection \<open>update\<close>

text \<open>
  \<open>update\<close> with the local input method: the Snapshot that \<open>update_local\<close> returns
  becomes \<open>self.stats\<close>.
\<close>

definition update_stats :: "cpu_plugin \<Rightarrow> snapshot \<Rightarrow> sample_input \<Rightarrow> error + cpu_plugin" where
  "update_stats self init inp =
     (case update_local self init inp of
        Inl e \<Rightarrow> Inl e
      | Inr (st, self') \<Rightarrow> Inr (self'\<lparr>stats := st\<rparr>))"

subsection \<open>Collaborators of the plugin\<close>

text \<open>
  Methods that the plugin inherits from \<open>GlancesPluginModel\<close>, and the formatting of
  floats, are parameters of the model: \<open>get_trend\<close> and \<open>trend_msg\<close> (a trend is a number
  or \<open>None\<close>), \<open>auto_unit\<close> (with \<open>min_symbol='K'\<close>), \<open>get_alert\<close> (its second argument
  is the \<open>maximum\<close> keyword, \<open>None\<close> when the call leaves it out) and \<open>get_alert_log\<close>;
  \<open>fmt_percent\<close> is \<open>'{:5.1f}%'.format\<close>, \<open>fmt_value\<close> is \<open>str\<close> of a number.
  \<open>percpu\<close> is \<open>self.args.percpu\<close>, \<open>LINUX\<close> the platform flag.
\<close>

record cpu_env =
  percpu :: bool
  is_disabled :: bool
  LINUX :: bool
  get_trend :: "string \<Rightarrow> real option"
  trend_msg :: "real option \<Rightarrow> string"
  auto_unit :: "int \<Rightarrow> string"
  fmt_percent :: "real \<Rightarrow> string"
  fmt_value :: "real \<Rightarrow> string"
  get_alert :: "real \<Rightarrow> real option \<Rightarrow> string \<Rightarrow> string"
  get_alert_log :: "real \<Rightarrow> string \<Rightarrow> string"

text \<open>
  Modelled from the spec: \<open>curse_add_line\<close> and \<open>curse_new_line\<close> of the parent class are
  missing. A DisplayLine is a fragment of text with a style tag and an \<open>optional\<close> flag;
  a line break is an explicit sentinel fragment.
\<close>

definition curse_add_line :: "string \<Rightarrow> string \<Rightarrow> bool \<Rightarrow> pyval" where
  "curse_add_line m deco opt =
     PDict [(''msg'', PStr m), (''decoration'', PStr deco), (''optional'', PBool opt)]"

definition curse_new_line :: pyval where
  "curse_new_line = curse_add_line [nl] ''DEFAULT'' False"

text \<open>
  Modelled from the spec: \<open>get_views\<close> of the parent class is missing. The ViewSet maps a
  field name to its decoration metadata; asking for a field without an entry raises.
\<close>

definition get_views :: "cpu_plugin \<Rightarrow> string \<Rightarrow> error + view" where
  "get_views self key = lookup (views self) key"

subsection \<open>update_views\<close>

text \<open>
  One loop of \<open>update_views\<close>: for each key present in the Snapshot, evaluate the alert
  and store it as the decoration of the key's view. The views are changed in place, so
  an exception leaves the entries written so far.
\<close>

fun decorate :: "(string \<Rightarrow> real \<Rightarrow> error + string) \<Rightarrow> snapshot \<Rightarrow> string list \<Rightarrow>
    (string \<rightharpoonup> view) \<Rightarrow> error option \<times> (string \<rightharpoonup> view)" where
  "decorate alert st [] vs = (None, vs)"
| "decorate alert st (key # ks) vs =
     (case map_of st key of
        None \<Rightarrow> decorate alert st ks vs
      | Some x \<Rightarrow>
          (case alert key x of
             Inl e \<Rightarrow> (Some e, vs)
           | Inr d \<Rightarrow>
               (case vs key of
                  None \<Rightarrow> (Some (KeyError key), vs)
                | Some v \<Rightarrow> decorate alert st ks (vs(key \<mapsto> v\<lparr>decoration := d\<rparr>)))))"

fun mark_optional :: "snapshot \<Rightarrow> string list \<Rightarrow> (string \<rightharpoonup> view) \<Rightarrow>
    error option \<times> (string \<rightharpoonup> view)" where
  "mark_optional st [] vs = (None, vs)"
| "mark_optional st (key # ks) vs =
     (case map_of st key of
        None \<Rightarrow> mark_optional st ks vs
      | Some x \<Rightarrow>
          (case vs key of
             None \<Rightarrow> (Some (KeyError key), vs)
           | Some v \<Rightarrow> mark_optional st ks (vs(key \<mapsto> v\<lparr>optional := True\<rparr>))))"

text \<open>Every field of the Snapshot has its view.\<close>

definition covers :: "snapshot \<Rightarrow> (string \<rightharpoonup> view) \<Rightarrow> bool" where
  "covers st vs = list_all (\<lambda>kv. vs (fst kv) \<noteq> None) st"

text \<open>The three alerts, each as a function of the key and of \<open>self.stats[key]\<close>.\<close>

definition alert_log :: "cpu_env \<Rightarrow> string \<Rightarrow> real \<Rightarrow> error + string" where
  "alert_log E key x = Inr (get_alert_log E x key)"

definition alert_only :: "cpu_env \<Rightarrow> string \<Rightarrow> real \<Rightarrow> error + string" where
  "alert_only E key x = Inr (get_alert E x None key)"

definition alert_core :: "cpu_env \<Rightarrow> snapshot \<Rightarrow> string \<Rightarrow> real \<Rightarrow> error + string" where
  "alert_core E st key x =
     bind_err (lookup (map_of st) ''cpucore'') (\<lambda>c. Inr (get_alert E x (Some (100 * c)) key))"

text \<open>
  \<open>update_views\<close>. \<open>views0\<close> is \<open>self.views\<close> as the parent's \<open>update_views\<close> leaves it.
  The result is the exception, if any, and the views of the plugin afterwards.
\<close>

definition update_views :: "cpu_env \<Rightarrow> (string \<rightharpoonup> view) \<Rightarrow> cpu_plugin \<Rightarrow>
    error option \<times> (string \<rightharpoonup> view)" where
  "update_views E views0 self =
     (let st = stats self in
      case decorate (alert_log E) st [''user'', ''system'', ''iowait'', ''total''] views0 of
        (Some e, vs) \<Rightarrow> (Some e, vs)
      | (None, vs1) \<Rightarrow>
      (case decorate (alert_only E) st [''steal''] vs1 of
        (Some e, vs) \<Rightarrow> (Some e, vs)
      | (None, vs2) \<Rightarrow>
      (case decorate (alert_core E st) st [''ctx_switches''] vs2 of
        (Some e, vs) \<Rightarrow> (Some e, vs)
      | (None, vs3) \<Rightarrow>
          mark_optional st [''nice'', ''irq'', ''idle'', ''steal'', ''ctx_switches'',
                            ''interrupts'', ''soft_interrupts'', ''syscalls''] vs3)))"

subsection \<open>msg_curse\<close>

text \<open>
  The combined trend of the header:
  \<open>if trend_user is None or trend_user is None\<close> gives \<open>None\<close>, otherwise the sum
  \<open>trend_user + trend_system\<close>, and adding \<open>None\<close> to a number raises \<open>TypeError\<close>.
\<close>

definition trend_cpu :: "real option \<Rightarrow> real option \<Rightarrow> error + real option" where
  "trend_cpu trend_user trend_system =
     (if trend_user = None \<or> trend_user = None then Inr None
      else (case (trend_user, trend_system) of
              (Some u, Some s) \<Rightarrow> Inr (Some (u + s))
            | _ \<Rightarrow> Inl TypeError))"

text \<open>\<open>int(self.stats[key] // self.stats['time_since_update'])\<close>.\<close>

definition per_second :: "snapshot \<Rightarrow> string \<Rightarrow> error + int" where
  "per_second st key =
     bind_err (lookup (map_of st) key) (\<lambda>x.
     bind_err (lookup (map_of st) ''time_since_update'') (\<lambda>t.
       if t = 0 then Inl ZeroDivisionError else Inr \<lfloor>x / t\<rfloor>))"

definition msg_header :: "cpu_env \<Rightarrow> error + pyval list" where
  "msg_header E =
     bind_err (trend_cpu (get_trend E ''user'') (get_trend E ''system'')) (\<lambda>t.
       Inr [curse_add_line ''CPU'' ''TITLE'' False,
            curse_add_line ('' '' @ ljust 4 (trend_msg E t)) ''DEFAULT'' False])"

definition msg_total :: "cpu_env \<Rightarrow> cpu_plugin \<Rightarrow> error + pyval list" where
  "msg_total E self =
     bind_err (lookup (map_of (stats self)) ''total'') (\<lambda>x.
     bind_err (get_views self ''total'') (\<lambda>v.
       Inr [curse_add_line (fmt_percent E x) (decoration v) False]))"

text \<open>A percentage shown with its label; both fragments carry the view's \<open>optional\<close>.\<close>

definition msg_optional_percent :: "cpu_env \<Rightarrow> cpu_plugin \<Rightarrow> string \<Rightarrow> string \<Rightarrow> real \<Rightarrow>
    error + pyval list" where
  "msg_optional_percent E self key label x =
     bind_err (get_views self key) (\<lambda>v.
       Inr [curse_add_line (''  '' @ ljust 8 label) ''DEFAULT'' (optional v),
            curse_add_line (fmt_percent E x) ''DEFAULT'' (optional v)])"

text \<open>The same with the view's decoration on the value (iowait and steal).\<close>

definition msg_decorated_percent :: "cpu_env \<Rightarrow> cpu_plugin \<Rightarrow> string \<Rightarrow> string \<Rightarrow> real \<Rightarrow>
    error + pyval list" where
  "msg_decorated_percent E self key label x =
     bind_err (get_views self key) (\<lambda>v.
       Inr [curse_add_line label ''DEFAULT'' (optional v),
            curse_add_line (fmt_percent E x) (decoration v) (optional v)])"

text \<open>A counter shown per second (interrupts, soft_interrupts, syscalls).\<close>

definition msg_rate :: "cpu_plugin \<Rightarrow> string \<Rightarrow> string \<Rightarrow> error + pyval list" where
  "msg_rate self key label =
     bind_err (get_views self key) (\<lambda>v.
     bind_err (per_second (stats self) key) (\<lambda>r.
       Inr [curse_add_line (''  '' @ ljust 8 label) ''DEFAULT'' (optional v),
            curse_add_line (rjust 5 (str_int r)) ''DEFAULT'' (optional v)]))"

definition msg_idle :: "cpu_env \<Rightarrow> cpu_plugin \<Rightarrow> bool \<Rightarrow> error + pyval list" where
  "msg_idle E self idle_tag =
     (case map_of (stats self) ''idle'' of
        Some x \<Rightarrow> if \<not> idle_tag then msg_optional_percent E self ''idle'' ''idle:'' x else Inr []
      | None \<Rightarrow> Inr [])"

definition msg_ctx_switches :: "cpu_env \<Rightarrow> cpu_plugin \<Rightarrow> error + pyval list" where
  "msg_ctx_switches E self =
     (case map_of (stats self) ''ctx_switches'' of
        Some x \<Rightarrow>
          bind_err (get_views self ''ctx_switches'') (\<lambda>v.
          bind_err (per_second (stats self) ''ctx_switches'') (\<lambda>r.
            Inr [curse_add_line (''  '' @ ljust 8 ''ctx_sw:'') ''DEFAULT'' (optional v),
                 curse_add_line (rjust 5 (auto_unit E r)) (decoration v) (optional v)]))
      | None \<Rightarrow> Inr [])"

definition msg_user :: "cpu_env \<Rightarrow> cpu_plugin \<Rightarrow> error + pyval list" where
  "msg_user E self =
     (case map_of (stats self) ''user'' of
        Some x \<Rightarrow>
          bind_err (get_views self ''user'') (\<lambda>v.
            Inr [curse_add_line (ljust 8 ''user:'') ''DEFAULT'' False,
                 curse_add_line (fmt_percent E x) (decoration v) False])
      | None \<Rightarrow>
          (case map_of (stats self) ''idle'' of
             Some x \<Rightarrow>
               Inr [curse_add_line (ljust 8 ''idle:'') ''DEFAULT'' False,
                    curse_add_line (fmt_percent E x) ''DEFAULT'' False]
           | None \<Rightarrow> Inr []))"

definition msg_irq :: "cpu_env \<Rightarrow> cpu_plugin \<Rightarrow> error + pyval list" where
  "msg_irq E self =
     (case map_of (stats self) ''irq'' of
        Some x \<Rightarrow> msg_optional_percent E self ''irq'' ''irq:'' x
      | None \<Rightarrow> Inr [])"

definition msg_interrupts :: "cpu_plugin \<Rightarrow> error + pyval list" where
  "msg_interrupts self =
     (case map_of (stats self) ''interrupts'' of
        Some x \<Rightarrow> msg_rate self ''interrupts'' ''inter:''
      | None \<Rightarrow> Inr [])"

definition msg_system :: "cpu_env \<Rightarrow> cpu_plugin \<Rightarrow> bool \<Rightarrow> error + pyval list" where
  "msg_system E self idle_tag =
     (if map_of (stats self) ''system'' \<noteq> None \<and> \<not> idle_tag then
        bind_err (lookup (map_of (stats self)) ''system'') (\<lambda>x.
        bind_err (get_views self ''system'') (\<lambda>v.
          Inr [curse_add_line (ljust 8 ''system:'') ''DEFAULT'' False,
               curse_add_line (fmt_percent E x) (decoration v) False]))
      else
        bind_err (lookup (map_of (stats self)) ''nb_log_core'') (\<lambda>n.
          Inr [curse_add_line (ljust 8 ''core:'') ''DEFAULT'' False,
               curse_add_line (rjust 6 (fmt_value E n)) ''DEFAULT'' False]))"

definition msg_nice :: "cpu_env \<Rightarrow> cpu_plugin \<Rightarrow> error + pyval list" where
  "msg_nice E self =
     (case map_of (stats self) ''nice'' of
        Some x \<Rightarrow> msg_optional_percent E self ''nice'' ''nice:'' x
      | None \<Rightarrow> Inr [])"

definition msg_soft_interrupts :: "cpu_plugin \<Rightarrow> error + pyval list" where
  "msg_soft_interrupts self =
     (case map_of (stats self) ''soft_interrupts'' of
        Some x \<Rightarrow> msg_rate self ''soft_interrupts'' ''sw_int:''
      | None \<Rightarrow> Inr [])"

definition msg_iowait :: "cpu_env \<Rightarrow> cpu_plugin \<Rightarrow> error + pyval list" where
  "msg_iowait E self =
     (case map_of (stats self) ''iowait'' of
        Some x \<Rightarrow> msg_decorated_percent E self ''iowait'' (ljust 8 ''iowait:'') x
      | None \<Rightarrow> Inr [])"

definition msg_steal :: "cpu_env \<Rightarrow> cpu_plugin \<Rightarrow> error + pyval list" where
  "msg_steal E self =
     (case map_of (stats self) ''steal'' of
        Some x \<Rightarrow> msg_decorated_percent E self ''steal'' (''  '' @ ljust 8 ''steal:'') x
      | None \<Rightarrow> Inr [])"

definition msg_syscalls :: "cpu_env \<Rightarrow> cpu_plugin \<Rightarrow> error + pyval list" where
  "msg_syscalls E self =
     (if map_of (stats self) ''syscalls'' \<noteq> None \<and> \<not> LINUX E
      then msg_rate self ''syscalls'' ''syscal:''
      else Inr [])"

text \<open>
  \<open>msg_curse\<close>: nothing when there are no stats, in per-CPU mode or when the plugin is
  disabled; otherwise the four lines of the panel, section after section.
\<close>

definition msg_curse :: "cpu_env \<Rightarrow> cpu_plugin \<Rightarrow> error + pyval list" where
  "msg_curse E self =
     (if stats self = [] \<or> percpu E \<or> is_disabled E then Inr []
      else
        (let idle_tag = (map_of (stats self) ''user'' = None) in
         sections
           [msg_header E,
            msg_total E self,
            msg_idle E self idle_tag,
            msg_ctx_switches E self,
            Inr [curse_new_line],
            msg_user E self,
            msg_irq E self,
            msg_interrupts self,
            Inr [curse_new_line],
            msg_system E self idle_tag,
            msg_nice E self,
            msg_soft_interrupts self,
            Inr [curse_new_line],
            msg_iowait E self,
            msg_steal E self,
            msg_syscalls E self]))"

section \<open>The Rich interface (glances/outputs/glances_rich.py)\<close>

subsection \<open>Plugin order\<close>

definition top_zone :: "string list" where
  "top_zone = [''cpu'', ''percpu'', ''gpu'', ''mem'', ''memswap'', ''load'', ''quicklook'']"

definition middle_left_zone :: "string list" where
  "middle_left_zone = [''network'', ''connections'', ''wifi'', ''ports'', ''diskio'', ''fs'',
                       ''irq'', ''folders'', ''raid'', ''smart'', ''sensors'']"

definition middle_left_width :: nat where
  "middle_left_width = 34"

definition middle_right_zone :: "string list" where
  "middle_right_zone = [''docker'', ''processcount'', ''amps'', ''processlist'', ''alert'']"

definition bottom_zone :: "string list" where
  "bottom_zone = [''now'']"

subsection \<open>State and collaborators\<close>

text \<open>
  What the renderer writes outside itself: the attribute \<open>max_processes\<close> of the shared
  process registry \<open>glances_processes\<close>, and the logger.
\<close>

datatype log_entry = Warning string | Debug string error

record world =
  max_processes :: "nat option"
  logger :: "log_entry list"

text \<open>
  The \<open>stats\<close> object (\<open>st\<close> below): \<open>getPluginsList(enable=False)\<close> and \<open>get_plugin\<close>, which gives the
  plugin or \<open>None\<close>. A plugin is seen through \<open>get_stats_display(args, max_width)\<close>
  alone, a function of \<open>max_width\<close> that returns a Python value or raises.
\<close>

type_synonym plugin = "nat option \<Rightarrow> error + pyval"

record glances_stats =
  getPluginsList :: "string list"
  get_plugin :: "string \<Rightarrow> plugin option"

text \<open>
  \<open>encode\<close> stands for \<open>u(u(nativestr(m)).encode('ascii', 'replace'))\<close>, whose helpers
  live in \<open>glances.compat\<close>: it turns the message of a fragment into text, or raises.
\<close>

type_synonym encoder = "pyval \<Rightarrow> error + string"

text \<open>One entry of the dict that \<open>plugins_to_rich\<close> builds.\<close>

record descriptor =
  title :: string
  subtitle :: string
  data :: string
  width :: nat
  height :: nat
  display :: pyval

subsection \<open>Measuring a plugin's content\<close>

text \<open>\<open>s.split('\n')\<close>: never empty, one more piece than there are line breaks.\<close>

fun split_nl :: "string \<Rightarrow> string list" where
  "split_nl [] = [[]]"
| "split_nl (c # cs) =
     (if c = nl then [] # split_nl cs
      else (case split_nl cs of [] \<Rightarrow> [[c]] | l # ls \<Rightarrow> (c # l) # ls))"

text \<open>\<open>len(max(lines, key=len))\<close>.\<close>

definition longest :: "string list \<Rightarrow> nat" where
  "longest ls = foldr max (map length ls) 0"

text \<open>\<open>''.join(xs)\<close>: every element has to be a string.\<close>

fun join :: "pyval list \<Rightarrow> error + string" where
  "join [] = Inr []"
| "join (PStr s # vs) = bind_err (join vs) (\<lambda>r. Inr (s @ r))"
| "join (v # vs) = Inl TypeError"

text \<open>The body of the \<open>try\<close> in \<open>_get_width\<close>, in its two modes.\<close>

definition width_item :: "encoder \<Rightarrow> bool \<Rightarrow> pyval \<Rightarrow> error + string" where
  "width_item encode without_option i =
     (if without_option then
        bind_err (subscript i ''optional'') (\<lambda>opt.
          if \<not> truthy opt then bind_err (subscript i ''msg'') encode else Inr [])
      else bind_err (subscript i ''msg'') encode)"

definition get_width_try :: "encoder \<Rightarrow> pyval \<Rightarrow> bool \<Rightarrow> error + nat" where
  "get_width_try encode stats_display without_option =
     bind_err (subscript stats_display ''msgdict'') (\<lambda>m.
     bind_err (iterate m) (\<lambda>items.
     bind_err (collect (width_item encode without_option) items) (\<lambda>parts.
       Inr (longest (split_nl (concat parts))))))"

text \<open>\<open>_get_width\<close>: the value and what it logs. Any exception is caught and gives 0.\<close>

definition get_width :: "encoder \<Rightarrow> pyval \<Rightarrow> bool \<Rightarrow> nat \<times> log_entry list" where
  "get_width encode stats_display without_option =
     (case get_width_try encode stats_display without_option of
        Inl e \<Rightarrow> (0, [Debug ''ERROR: Can not compute plugin width'' e])
      | Inr c \<Rightarrow> (c, []))"

text \<open>The body of the \<open>try\<close> in \<open>_get_height\<close>: \<open>[i['msg'] for i in ...].count('\n')\<close>.\<close>

definition get_height_try :: "pyval \<Rightarrow> error + nat" where
  "get_height_try stats_display =
     bind_err (subscript stats_display ''msgdict'') (\<lambda>m.
     bind_err (iterate m) (\<lambda>items.
     bind_err (collect (\<lambda>i. subscript i ''msg'') items) (\<lambda>msgs.
       Inr (length (filter (\<lambda>v. v = PStr [nl]) msgs)))))"

definition get_height :: "pyval \<Rightarrow> nat \<times> log_entry list" where
  "get_height stats_display =
     (case get_height_try stats_display of
        Inl e \<Rightarrow> (0, [Debug ''ERROR: Can not compute plugin height'' e])
      | Inr c \<Rightarrow> (c + 1, []))"

text \<open>
  Well-formed content: a dict whose \<open>'msgdict'\<close> can be iterated and whose fragments all
  are dicts with a \<open>'msg'\<close>; its line-break sentinels are the fragments whose \<open>'msg'\<close> is
  the string \<open>'\n'\<close>.
\<close>

definition fragments :: "pyval \<Rightarrow> pyval list option" where
  "fragments stats_display =
     (case subscript stats_display ''msgdict'' of
        Inl e \<Rightarrow> None
      | Inr m \<Rightarrow> (case iterate m of Inl e \<Rightarrow> None | Inr items \<Rightarrow> Some items))"

fun has_msg :: "pyval \<Rightarrow> bool" where
  "has_msg (PDict d) = (map_of d ''msg'' \<noteq> None)"
| "has_msg v = False"

fun is_sentinel :: "pyval \<Rightarrow> bool" where
  "is_sentinel (PDict d) = (map_of d ''msg'' = Some (PStr [nl]))"
| "is_sentinel v = False"

definition well_formed :: "pyval \<Rightarrow> bool" where
  "well_formed stats_display =
     (case fragments stats_display of None \<Rightarrow> False | Some items \<Rightarrow> list_all has_msg items)"

definition sentinels :: "pyval \<Rightarrow> nat" where
  "sentinels stats_display =
     (case fragments stats_display of None \<Rightarrow> 0 | Some items \<Rightarrow> length (filter is_sentinel items))"

text \<open>
  Content that can be measured without its optional fragments: the fragments can be
  listed, each has an \<open>'optional'\<close>, and each that is not flagged optional has a \<open>'msg'\<close>
  that the encoder accepts. A fragment flagged optional is skipped, its \<open>'msg'\<close> unread.
\<close>

fun has_optional :: "pyval \<Rightarrow> bool" where
  "has_optional (PDict d) = (map_of d ''optional'' \<noteq> None)"
| "has_optional v = False"

fun flagged :: "pyval \<Rightarrow> bool" where
  "flagged (PDict d) = (case map_of d ''optional'' of None \<Rightarrow> False | Some opt \<Rightarrow> truthy opt)"
| "flagged v = False"

definition encodes :: "encoder \<Rightarrow> pyval \<Rightarrow> bool" where
  "encodes encode i =
     (case subscript i ''msg'' of
        Inl e \<Rightarrow> False
      | Inr m \<Rightarrow> (case encode m of Inl e \<Rightarrow> False | Inr s \<Rightarrow> True))"

definition measurable :: "encoder \<Rightarrow> pyval \<Rightarrow> bool" where
  "measurable encode stats_display =
     (case fragments stats_display of
        None \<Rightarrow> False
      | Some items \<Rightarrow>
          list_all (\<lambda>i. has_optional i \<and> (flagged i \<or> encodes encode i)) items)"

subsection \<open>_plugin_to_rich and plugins_to_rich\<close>

text \<open>\<open>str.capitalize\<close> on ASCII text.\<close>

definition upper_char :: "char \<Rightarrow> char" where
  "upper_char c =
     (case map_of (zip ''abcdefghijklmnopqrstuvwxyz'' ''ABCDEFGHIJKLMNOPQRSTUVWXYZ'') c of
        None \<Rightarrow> c | Some u \<Rightarrow> u)"

definition lower_char :: "char \<Rightarrow> char" where
  "lower_char c =
     (case map_of (zip ''ABCDEFGHIJKLMNOPQRSTUVWXYZ'' ''abcdefghijklmnopqrstuvwxyz'') c of
        None \<Rightarrow> c | Some l \<Rightarrow> l)"

definition capitalize :: "string \<Rightarrow> string" where
  "capitalize s = (case s of [] \<Rightarrow> [] | c # cs \<Rightarrow> upper_char c # map lower_char cs)"

definition empty_ret :: descriptor where
  "empty_ret = \<lparr>title = [], subtitle = [], data = [], width = 0, height = 0,
                 display = PBool False\<rparr>"

text \<open>
  \<open>_plugin_to_rich\<close> returns the descriptor, or the exception that escapes, and the
  world it leaves. The assignment to \<open>glances_processes.max_processes\<close> comes before
  the plugin is asked for its display, so it stays when the plugin raises.
\<close>

definition plugin_to_rich :: "encoder \<Rightarrow> glances_stats \<Rightarrow> string \<Rightarrow> world \<Rightarrow>
    (error + descriptor) \<times> world" where
  "plugin_to_rich encode st plugin w =
     (case get_plugin st plugin of
        None \<Rightarrow> (Inr empty_ret, w)
      | Some pl \<Rightarrow>
          (let max_width = (if plugin \<in> set middle_left_zone then Some middle_left_width else None);
               w1 = (if plugin = ''processlist'' then w\<lparr>max_processes := Some 10\<rparr> else w)
           in case pl max_width of
                Inl e \<Rightarrow> (Inl e, w1)
              | Inr stat_display \<Rightarrow>
                  (case bind_err (subscript stat_display ''msgdict'') (\<lambda>m.
                        bind_err (iterate m) (\<lambda>items.
                        bind_err (collect (\<lambda>i. subscript i ''msg'') items) join)) of
                     Inl e \<Rightarrow> (Inl e, w1)
                   | Inr joined \<Rightarrow>
                       (let (wd, log_w) = get_width encode stat_display False;
                            (ht, log_h) = get_height stat_display;
                            w2 = w1\<lparr>logger := logger w1 @ log_w @ log_h\<rparr>
                        in case subscript stat_display ''display'' of
                             Inl e \<Rightarrow> (Inl e, w2)
                           | Inr d \<Rightarrow>
                               (Inr \<lparr>title = capitalize plugin, subtitle = [], data = joined,
                                     width = wd + 4, height = ht + 2, display = d\<rparr>, w2)))))"

text \<open>
  The two effects on the world: \<open>max_processes\<close> set to 10 or left alone, and entries
  appended to the log.
\<close>

definition touched :: "bool \<Rightarrow> log_entry list \<Rightarrow> world \<Rightarrow> world" where
  "touched m l w = w\<lparr>max_processes := (if m then Some 10 else max_processes w),
                     logger := logger w @ l\<rparr>"

text \<open>\<open>plugins_to_rich\<close>: the loop \<open>ret[p] = self._plugin_to_rich(stats, p)\<close>.\<close>

fun plugins_loop :: "encoder \<Rightarrow> glances_stats \<Rightarrow> string list \<Rightarrow> (string \<rightharpoonup> descriptor) \<Rightarrow>
    world \<Rightarrow> (error + (string \<rightharpoonup> descriptor)) \<times> world" where
  "plugins_loop encode st [] ret w = (Inr ret, w)"
| "plugins_loop encode st (p # ps) ret w =
     (case plugin_to_rich encode st p w of
        (Inl e, w') \<Rightarrow> (Inl e, w')
      | (Inr d, w') \<Rightarrow> plugins_loop encode st ps (ret(p \<mapsto> d)) w')"

definition plugins_to_rich :: "encoder \<Rightarrow> glances_stats \<Rightarrow> world \<Rightarrow>
    (error + (string \<rightharpoonup> descriptor)) \<times> world" where
  "plugins_to_rich encode st w = plugins_loop encode st (getPluginsList st) Map.empty w"

subsection \<open>update_layout\<close>

text \<open>
  The layout tree of one cycle. A region is a \<open>Layout\<close> with its name, its size when it
  has one, and its \<open>Panel\<close> when it has one; \<open>Layout(name=p)\<close> has neither. The tree is
  the root split into the top band (of a given size, split in a row), the middle band
  (split into the left column of fixed size and the right column) and the bottom band.
\<close>

datatype panel = Panel (panel_data: string) (panel_title: string) (panel_subtitle: string)

datatype region = Region (region_name: string) (region_size: "nat option")
                         (region_panel: "panel option")

record layout_tree =
  top_size :: nat
  top_row :: "region list"
  middle_left_size :: nat
  middle_left_column :: "region list"
  middle_right_column :: "region list"
  bottom_size :: nat
  bottom_row :: "region list"

text \<open>The regions built for a zone's plugin, sized by width (top) or height (middle).\<close>

definition panel_of :: "descriptor \<Rightarrow> panel" where
  "panel_of d = Panel (data d) (title d) (subtitle d)"

definition top_region :: "string \<Rightarrow> descriptor \<Rightarrow> region" where
  "top_region p d =
     (if p = ''quicklook'' then Region p None None
      else Region p (Some (width d)) (Some (panel_of d)))"

definition middle_left_region :: "string \<Rightarrow> descriptor \<Rightarrow> region" where
  "middle_left_region p d = Region p (Some (height d)) (Some (panel_of d))"

definition middle_right_region :: "string \<Rightarrow> descriptor \<Rightarrow> region" where
  "middle_right_region p d =
     (if p = ''processlist'' then Region p None None
      else Region p (Some (height d)) (Some (panel_of d)))"

text \<open>
  The loop over a zone: a plugin contributes a region when
  \<open>stats_display[p]['display'] and len(stats_display[p]['data']) > 0\<close>. A plugin of the
  zone that \<open>stats_display\<close> does not hold raises \<open>KeyError\<close>.
\<close>

fun zone_regions :: "(string \<Rightarrow> descriptor \<Rightarrow> region) \<Rightarrow> (string \<rightharpoonup> descriptor) \<Rightarrow>
    string list \<Rightarrow> error + region list" where
  "zone_regions mk stats_display [] = Inr []"
| "zone_regions mk stats_display (p # ps) =
     (case stats_display p of
        None \<Rightarrow> Inl (KeyError p)
      | Some d \<Rightarrow>
          (if truthy (display d) \<and> length (data d) > 0
           then bind_err (zone_regions mk stats_display ps) (\<lambda>rs. Inr (mk p d # rs))
           else zone_regions mk stats_display ps))"

text \<open>
  A region shows a descriptor of \<open>stats_display\<close>: the descriptor under the region's
  name is to be displayed, has content, and is what the region's panel holds when the
  region has a panel.
\<close>

definition shown :: "(string \<rightharpoonup> descriptor) \<Rightarrow> region \<Rightarrow> bool" where
  "shown stats_display r =
     (case stats_display (region_name r) of
        None \<Rightarrow> False
      | Some d \<Rightarrow> truthy (display d) \<and> data d \<noteq> [] \<and>
          (case region_panel r of None \<Rightarrow> True | Some pn \<Rightarrow> pn = panel_of d))"

text \<open>
  The composition of the tree from the descriptors (the body of \<open>update_layout\<close> after
  its first statement).
\<close>

definition compose_layout :: "(string \<rightharpoonup> descriptor) \<Rightarrow> error + layout_tree" where
  "compose_layout stats_display =
     bind_err (lookup stats_display ''cpu'') (\<lambda>cpu.
     bind_err (lookup stats_display ''now'') (\<lambda>now.
     bind_err (zone_regions top_region stats_display top_zone) (\<lambda>tops.
     bind_err (zone_regions middle_left_region stats_display middle_left_zone) (\<lambda>lefts.
     bind_err (zone_regions middle_right_region stats_display middle_right_zone) (\<lambda>rights.
       Inr \<lparr>top_size = height cpu,
            top_row = tops,
            middle_left_size = middle_left_width + 8,
            middle_left_column = lefts @ [Region ''middle_left_padding'' None None],
            middle_right_column = rights,
            bottom_size = height now,
            bottom_row = [Region ''bottom'' None None]\<rparr>)))))"

text \<open>
  \<open>update_layout\<close>. The tree is \<open>self.layout\<close> after a call that returns; the half-built
  tree that an exception leaves in \<open>self.layout\<close> is not modelled.
\<close>

definition update_layout :: "encoder \<Rightarrow> glances_stats \<Rightarrow> world \<Rightarrow> (error + layout_tree) \<times> world" where
  "update_layout encode st w =
     (case plugins_to_rich encode st w of
        (Inl e, w') \<Rightarrow> (Inl e, w')
      | (Inr stats_display, w') \<Rightarrow> (compose_layout stats_display, w'))"

subsection \<open>update\<close>

definition is_exit_key :: "char \<Rightarrow> bool" where
  "is_exit_key c \<longleftrightarrow> c = CHR 0x1B \<or> c = CHR ''q''"

text \<open>
  The refresh loop. The timer and the keyboard are outside the two modules; a cycle's
  environment is the list \<open>ticks\<close>, one entry for each time the loop condition finds
  the countdown not finished: \<open>None\<close> when \<open>kbhit()\<close> is false there, \<open>Some c\<close> when it is
  true and \<open>getch()\<close> gives \<open>c\<close>. After the last entry the countdown is finished. The
  loop returns \<open>isexitkey\<close>, the values of \<open>pressedkey\<close> in order (\<open>-1\<close> without a key)
  and the number of redraws.
\<close>

fun refresh_loop :: "char option list \<Rightarrow> bool \<Rightarrow> int list \<Rightarrow> nat \<Rightarrow> bool \<times> int list \<times> nat" where
  "refresh_loop [] isexitkey pressed redraws = (isexitkey, pressed, redraws)"
| "refresh_loop (k # ks) isexitkey pressed redraws =
     (if isexitkey then (isexitkey, pressed, redraws)
      else (case k of
              Some c \<Rightarrow> refresh_loop ks (is_exit_key c) (pressed @ [of_char c]) (redraws + 1)
            | None \<Rightarrow> refresh_loop ks False (pressed @ [-1]) (redraws + 1)))"

text \<open>The key behind a tick, and whether it is one of the two exit keys.\<close>

definition exit_tick :: "char option \<Rightarrow> bool" where
  "exit_tick k = (case k of None \<Rightarrow> False | Some c \<Rightarrow> is_exit_key c)"

text \<open>
  What a call of \<open>update\<close> does: the duration it gives to \<open>Timer\<close>, the value it returns
  or the exception it raises, the keys it decoded and the number of redraws.
\<close>

record run =
  countdown :: real
  returned :: "error + bool"
  pressedkeys :: "int list"
  redrawn :: nat

definition update :: "encoder \<Rightarrow> glances_stats \<Rightarrow> real \<Rightarrow> char option list \<Rightarrow> world \<Rightarrow> run \<times> world" where
  "update encode st duration ticks w =
     (let (w1, duration1) =
            (if duration \<le> 0
             then (w\<lparr>logger := logger w @
                       [Warning ''Update and export time higher than refresh_time.'']\<rparr>, 0.1)
             else (w, duration))
      in case update_layout encode st w1 of
           (Inl e, w2) \<Rightarrow>
             (\<lparr>countdown = duration1, returned = Inl e, pressedkeys = [], redrawn = 0\<rparr>, w2)
         | (Inr tree, w2) \<Rightarrow>
             (let (isexitkey, pressed, redraws) = refresh_loop ticks False [] 0
              in (\<lparr>countdown = duration1, returned = Inr isexitkey, pressedkeys = pressed,
                   redrawn = redraws\<rparr>, w2)))"

section \<open>Concrete scenarios\<close>

text \<open>A plugin that has sampled before, with the counters of its previous sample.\<close>

definition warm_plugin :: "scpustats \<Rightarrow> cpu_plugin" where
  "warm_plugin old = cold_plugin\<lparr>cpu_stats_old := Some old\<rparr>"

text \<open>
  An environment for the scenarios. The formatter of percentages is a stand-in that shows
  the integer part only; \<open>auto_unit\<close> prints a small number as it is.
\<close>

definition scenario_env :: "real option \<Rightarrow> real option \<Rightarrow> cpu_env" where
  "scenario_env trend_user trend_system =
     \<lparr>percpu = False, is_disabled = False, LINUX = True,
      get_trend = (\<lambda>item. if item = ''user'' then trend_user
                           else if item = ''system'' then trend_system else None),
      trend_msg = (\<lambda>t. case t of None \<Rightarrow> '' '' | Some d \<Rightarrow> if d > 0 then ''/'' else ''-''),
      auto_unit = str_int,
      fmt_percent = (\<lambda>x. rjust 5 (str_int \<lfloor>x\<rfloor>) @ ''%''),
      fmt_value = (\<lambda>x. str_int \<lfloor>x\<rfloor>),
      get_alert = (\<lambda>x maximum header.
                     case maximum of None \<Rightarrow> ''DEFAULT''
                     | Some m \<Rightarrow> if x > m then ''CRITICAL'' else ''OK''),
      get_alert_log = (\<lambda>x header. ''OK_LOG'')\<rparr>"

text \<open>Views with an entry for each field of a Snapshot, undecorated.\<close>

definition plain_views :: "snapshot \<Rightarrow> (string \<rightharpoonup> view)" where
  "plain_views st = (\<lambda>key. case map_of st key of None \<Rightarrow> None
                            | Some x \<Rightarrow> Some \<lparr>decoration = ''DEFAULT'', optional = False\<rparr>)"

text \<open>
  Two samples in a row, the counters going from 120 to 185 with 2.0 seconds between
  them, then the views of the second Snapshot.
\<close>

definition first_sample :: "error + cpu_plugin" where
  "first_sample = update_stats cold_plugin [] (sample_of (counters 120 120 0 0) 2)"

definition second_sample :: "error + cpu_plugin" where
  "second_sample =
     bind_err first_sample (\<lambda>self1.
       update_stats self1 [] (sample_of (counters 185 185 0 0) 2))"

definition with_views :: "cpu_env \<Rightarrow> cpu_plugin \<Rightarrow> error + cpu_plugin" where
  "with_views E self =
     (case update_views E (plain_views (stats self)) self of
        (Some e, vs) \<Rightarrow> Inl e
      | (None, vs) \<Rightarrow> Inr (self\<lparr>views := vs\<rparr>))"

text \<open>The text of a message: its fragments' \<open>msg\<close> joined.\<close>

definition text_of :: "error + pyval list \<Rightarrow> error + string" where
  "text_of r = bind_err r (\<lambda>ls. bind_err (collect (\<lambda>i. subscript i ''msg'') ls) join)"

text \<open>The second sample with its views, and what \<open>msg_curse\<close> makes of it.\<close>

definition second_plugin :: "cpu_env \<Rightarrow> error + cpu_plugin" where
  "second_plugin E = bind_err second_sample (with_views E)"

definition rendered :: "cpu_env \<Rightarrow> error + pyval list" where
  "rendered E = bind_err (second_plugin E) (msg_curse E)"

definition rendered_rate :: "string \<Rightarrow> error + int" where
  "rendered_rate key = bind_err second_sample (\<lambda>self. per_second (stats self) key)"

text \<open>The Snapshot \<open>{total: 97.5, ctx_switches: 5000, cpucore: 4, time_since_update: 2.0}\<close>.\<close>

definition busy_plugin :: cpu_plugin where
  "busy_plugin = cold_plugin\<lparr>stats := [(''total'', 97.5), (''ctx_switches'', 5000),
                                       (''cpucore'', 4), (''time_since_update'', 2)]\<rparr>"

text \<open>
  A stats object for the renderer. All the plugins of the four zones are listed; \<open>cpu\<close>,
  \<open>network\<close>, \<open>processlist\<close> and \<open>now\<close> have content to show, \<open>mem\<close> has content but
  is not to be displayed, \<open>load\<close> is to be displayed but has no content, and the others
  are not loaded. With \<open>mem_raises\<close> the display of \<open>mem\<close> raises instead.
\<close>

definition display_of :: "pyval list \<Rightarrow> bool \<Rightarrow> pyval" where
  "display_of ls visible = PDict [(''msgdict'', PList ls), (''display'', PBool visible)]"

definition demo_plugins :: "bool \<Rightarrow> (string \<times> plugin) list" where
  "demo_plugins mem_raises =
     [(''cpu'', \<lambda>max_width. Inr (display_of [curse_add_line ''CPU'' ''TITLE'' False,
                                                curse_add_line ''  97.5%'' ''OK'' False,
                                                curse_new_line,
                                                curse_add_line ''user:'' ''DEFAULT'' False] True)),
      (''mem'', \<lambda>max_width. if mem_raises then Inl (Raised ''mem'')
                             else Inr (display_of [curse_add_line ''MEM'' ''TITLE'' False] False)),
      (''load'', \<lambda>max_width. Inr (display_of [] True)),
      (''network'', \<lambda>max_width. Inr (display_of [curse_add_line ''NETWORK'' ''TITLE'' False] True)),
      (''processlist'', \<lambda>max_width. Inr (display_of [curse_add_line ''TASKS'' ''TITLE'' False] True)),
      (''now'', \<lambda>max_width. Inr (display_of [curse_add_line ''2022-01-01'' ''DEFAULT'' False] True))]"

definition demo_stats :: "bool \<Rightarrow> glances_stats" where
  "demo_stats mem_raises =
     \<lparr>getPluginsList = top_zone @ middle_left_zone @ middle_right_zone @ bottom_zone,
      get_plugin = map_of (demo_plugins mem_raises)\<rparr>"

text \<open>An encoder for the scenarios: text goes through with \<open>?\<close> for what is not ASCII.\<close>

fun demo_encode :: encoder where
  "demo_encode (PStr s) = Inr (map (\<lambda>c. if of_char c < (128 :: nat) then c else CHR ''?'') s)"
| "demo_encode v = Inl TypeError"

definition world0 :: world where
  "world0 = \<lparr>max_processes = None, logger = []\<rparr>"

text \<open>The display of \<open>cpu\<close> above, and a display without \<open>'msgdict'\<close>.\<close>

definition cpu_display :: pyval where
  "cpu_display = display_of [curse_add_line ''CPU'' ''TITLE'' False,
                             curse_add_line ''  97.5%'' ''OK'' False,
                             curse_new_line,
                             curse_add_line ''user:'' ''DEFAULT'' False] True"

definition no_msgdict :: pyval where
  "no_msgdict = PDict [(''display'', PBool True)]"

text \<open>
  Two more displays: one whose second fragment is flagged optional and has no \<open>'msg'\<close>,
  and one whose only fragment has no \<open>'optional'\<close>.
\<close>

definition skipped_msg :: pyval where
  "skipped_msg =
     PDict [(''msgdict'', PList [PDict [(''msg'', PStr ''abc''), (''optional'', PBool False)],
                                 PDict [(''optional'', PBool True)]])]"

definition no_optional :: pyval where
  "no_optional = PDict [(''msgdict'', PList [PDict [(''msg'', PStr ''abc'')]])]"

text \<open>The tree that \<open>update_layout\<close> composes when no plugin raises.\<close>

definition demo_tree :: layout_tree where
  "demo_tree =
     \<lparr>top_size = 4,
      top_row = [Region ''cpu'' (Some 14)
                   (Some (Panel (''CPU  97.5%'' @ [nl] @ ''user:'') ''Cpu'' []))],
      middle_left_size = 42,
      middle_left_column = [Region ''network'' (Some 3) (Some (Panel ''NETWORK'' ''Network'' [])),
                            Region ''middle_left_padding'' None None],
      middle_right_column = [Region ''processlist'' None None],
      bottom_size = 3,
      bottom_row = [Region ''bottom'' None None]\<rparr>"

section \<open>Properties of update_local\<close>

lemma init_counters_other:
  "stat \<notin> set fs \<Longrightarrow> map_of (init_counters fs st) stat = map_of st stat"
  by (induction fs arbitrary: st) (auto simp: update_conv')

lemma init_counters_fields:
  "stat \<in> set fs \<Longrightarrow> map_of (init_counters fs st) stat = Some 0"
proof (induction fs arbitrary: st)
  case Nil
  then show ?case by simp
next
  case (Cons f fs)
  show ?case
  proof (cases "stat \<in> set fs")
    case True
    then show ?thesis using Cons.IH by simp
  next
    case False
    with Cons.prems have "stat = f" by simp
    with False show ?thesis by (simp add: init_counters_other update_conv')
  qed
qed

text \<open>
  With integer counters stored from the previous call, the subtraction never meets
  \<open>None\<close> and the call returns.
\<close>

lemma delta_counters_returns:
  "all_counted old \<Longrightarrow> \<exists>st'. delta_counters cur old cpu_stats_fields st = Inr st'"
  by (auto simp: all_counted_def cpu_stats_fields_def getattr_def split: option.splits)

lemma delta_counters_field:
  assumes "delta_counters cur old cpu_stats_fields st = Inr st'"
    and "stat \<in> set cpu_stats_fields"
    and "getattr cur stat = Some c" and "getattr old stat = Some p"
  shows "map_of st' stat = Some (of_int (c - p))"
  using assms
  by (auto simp: cpu_stats_fields_def getattr_def update_conv' split: option.splits if_splits)

text \<open>
  C1 (as stated, refuted). The claim has every later sample emit
  \<open>max(0, current_raw - previous_raw)\<close>. With 185 stored and 120 read now, the call
  emits \<open>-65\<close>: the source subtracts and does not clamp.
\<close>

theorem update_local_clamp_counterexample:
  "emitted (update_local (warm_plugin (counters 185 0 0 0)) []
              (sample_of (counters 120 0 0 0) 2)) ''ctx_switches'' = Some (- 65) \<and>
   emitted (update_local (warm_plugin (counters 185 0 0 0)) []
              (sample_of (counters 120 0 0 0) 2)) ''ctx_switches'' \<noteq> Some (max 0 (120 - 185))"
  by (simp add: warm_plugin_def emitted_def update_local_def cold_plugin_def sample_of_def
      counters_def cpu_stats_fields_def getattr_def)

text \<open>
  C1 (amended). For every counter field sampled by \<open>update_local\<close>: on the first sample
  (no previous counters) the emitted value is 0 whatever the raw counter, and the raw
  counters are stored; on a later sample, with integer counters stored, the emitted value
  is \<open>current_raw - previous_raw\<close> without clamping, the raw counters are stored, and the
  value is \<open>max(0, current_raw - previous_raw)\<close> whenever the counter has not decreased.
\<close>

theorem update_local_delta:
  assumes "stat \<in> set cpu_stats_fields"
  shows "(cpu_stats_old self = None \<longrightarrow>
            emitted (update_local self init inp) stat = Some 0 \<and>
            stored (update_local self init inp) = Some (cpu_stats inp)) \<and>
         (\<forall>old c p. cpu_stats_old self = Some old \<and> all_counted old \<and>
            getattr (cpu_stats inp) stat = Some c \<and> getattr old stat = Some p \<longrightarrow>
            emitted (update_local self init inp) stat = Some (of_int (c - p)) \<and>
            stored (update_local self init inp) = Some (cpu_stats inp) \<and>
            (p \<le> c \<longrightarrow> emitted (update_local self init inp) stat = Some (of_int (max 0 (c - p)))))"
proof (intro conjI impI allI)
  assume cold: "cpu_stats_old self = None"
  show "emitted (update_local self init inp) stat = Some 0"
    using cold assms by (simp add: emitted_def update_local_def Let_def init_counters_fields)
  show "stored (update_local self init inp) = Some (cpu_stats inp)"
    using cold by (simp add: stored_def update_local_def Let_def)
next
  fix old c p
  assume h: "cpu_stats_old self = Some old \<and> all_counted old \<and>
            getattr (cpu_stats inp) stat = Some c \<and> getattr old stat = Some p"
  define st3 where "st3 = AList.update ''cpucore'' (of_int (nb_log_core self))
       (AList.update ''time_since_update'' (time_since_update inp)
         (fold (\<lambda>(stat, v) st. AList.update stat v st) (cpu_times_percent inp)
           (AList.update ''total'' (total inp) init)))"
  from h obtain st4 where d: "delta_counters (cpu_stats inp) old cpu_stats_fields st3 = Inr st4"
    using delta_counters_returns by blast
  have u: "update_local self init inp = Inr (st4, self\<lparr>cpu_stats_old := Some (cpu_stats inp)\<rparr>)"
    using h d by (simp add: update_local_def Let_def st3_def)
  have f: "map_of st4 stat = Some (of_int (c - p))"
    using delta_counters_field [OF d assms] h by simp
  show e: "emitted (update_local self init inp) stat = Some (of_int (c - p))"
    using u f by (simp add: emitted_def)
  show "stored (update_local self init inp) = Some (cpu_stats inp)"
    using u by (simp add: stored_def)
  show "emitted (update_local self init inp) stat = Some (of_int (max 0 (c - p)))" if "p \<le> c"
    using e that by (simp add: max_def)
qed

theorem update_local_delta_witness:
  "''ctx_switches'' \<in> set cpu_stats_fields \<and>
   emitted (update_local cold_plugin [] (sample_of (counters 120 7 3 0) 2))
     ''ctx_switches'' = Some 0 \<and>
   stored (update_local cold_plugin [] (sample_of (counters 120 7 3 0) 2))
     = Some (counters 120 7 3 0) \<and>
   all_counted (counters 120 7 3 0) \<and>
   emitted (update_local (warm_plugin (counters 120 7 3 0)) []
              (sample_of (counters 185 9 3 0) 2)) ''ctx_switches'' = Some 65 \<and>
   stored (update_local (warm_plugin (counters 120 7 3 0)) []
              (sample_of (counters 185 9 3 0) 2)) = Some (counters 185 9 3 0)"
proof -
  have f: "''ctx_switches'' \<in> set cpu_stats_fields"
    by (simp add: cpu_stats_fields_def)
  have a: "all_counted (counters 120 7 3 0)"
    by (simp add: all_counted_def counters_def)
  have c: "cpu_stats_old cold_plugin = None"
    by (simp add: cold_plugin_def)
  have w: "cpu_stats_old (warm_plugin (counters 120 7 3 0)) = Some (counters 120 7 3 0) \<and>
           all_counted (counters 120 7 3 0) \<and>
           getattr (cpu_stats (sample_of (counters 185 9 3 0) 2)) ''ctx_switches'' = Some 185 \<and>
           getattr (counters 120 7 3 0) ''ctx_switches'' = Some 120"
    using a by (simp add: warm_plugin_def sample_of_def counters_def getattr_def)
  note first = update_local_delta [OF f, of cold_plugin "[]"
      "sample_of (counters 120 7 3 0) 2", THEN conjunct1, rule_format, OF c]
  note later = update_local_delta [OF f, of "warm_plugin (counters 120 7 3 0)" "[]"
      "sample_of (counters 185 9 3 0) 2", THEN conjunct2, rule_format, OF w]
  show ?thesis
    using f a first later by (simp add: sample_of_def)
qed

section \<open>Properties of update_views\<close>

lemma coversD:
  "covers st vs \<Longrightarrow> map_of st key = Some x \<Longrightarrow> \<exists>v. vs key = Some v"
  by (auto simp: covers_def list_all_iff dest!: map_of_SomeD)

lemma covers_upd:
  "covers st vs \<Longrightarrow> covers st (vs(k \<mapsto> v))"
  by (simp add: covers_def list_all_iff)

text \<open>
  When the alert never raises and every field of the Snapshot has a view, a loop of
  \<open>update_views\<close> runs to its end and touches the views of its own keys only.
\<close>

lemma decorate_total:
  assumes "\<And>key x. \<exists>d. alert key x = Inr d"
    and "covers st vs"
  shows "\<exists>vs'. decorate alert st ks vs = (None, vs') \<and> covers st vs' \<and>
           (\<forall>key. key \<notin> set ks \<longrightarrow> vs' key = vs key)"
  using assms(2)
proof (induction ks arbitrary: vs)
  case Nil
  then show ?case by simp
next
  case (Cons k ks)
  show ?case
  proof (cases "map_of st k")
    case None
    then show ?thesis using Cons.IH [OF Cons.prems] by auto
  next
    case (Some x)
    obtain d where d: "alert k x = Inr d" using assms(1) by blast
    from coversD [OF Cons.prems Some] obtain v where v: "vs k = Some v"
      by blast
    have c: "covers st (vs(k \<mapsto> v\<lparr>decoration := d\<rparr>))"
      using Cons.prems by (rule covers_upd)
    from Cons.IH [OF c] obtain vs' where
      r: "decorate alert st ks (vs(k \<mapsto> v\<lparr>decoration := d\<rparr>)) = (None, vs')"
      and c': "covers st vs'"
      and o: "\<forall>key. key \<notin> set ks \<longrightarrow> vs' key = (vs(k \<mapsto> v\<lparr>decoration := d\<rparr>)) key"
      by blast
    have "decorate alert st (k # ks) vs = (None, vs')"
      using Some d v r by simp
    moreover have "\<forall>key. key \<notin> set (k # ks) \<longrightarrow> vs' key = vs key"
      using o by simp
    ultimately show ?thesis using c' by blast
  qed
qed

lemma mark_optional_total:
  assumes "covers st vs"
  shows "\<exists>vs'. mark_optional st ks vs = (None, vs') \<and>
           (\<forall>key v. vs key = Some v \<longrightarrow> (\<exists>v'. vs' key = Some v' \<and> decoration v' = decoration v))"
  using assms
proof (induction ks arbitrary: vs)
  case Nil
  then show ?case by simp
next
  case (Cons k ks)
  show ?case
  proof (cases "map_of st k")
    case None
    then show ?thesis using Cons.IH [OF Cons.prems] by auto
  next
    case (Some x)
    from coversD [OF Cons.prems Some] obtain v where v: "vs k = Some v"
      by blast
    have c: "covers st (vs(k \<mapsto> v\<lparr>optional := True\<rparr>))"
      using Cons.prems by (rule covers_upd)
    from Cons.IH [OF c] obtain vs' where r: "mark_optional st ks (vs(k \<mapsto> v\<lparr>optional := True\<rparr>)) = (None, vs')"
      and p: "\<forall>key w. (vs(k \<mapsto> v\<lparr>optional := True\<rparr>)) key = Some w \<longrightarrow>
                (\<exists>v'. vs' key = Some v' \<and> decoration v' = decoration w)"
      by blast
    have "\<exists>v'. vs' key = Some v' \<and> decoration v' = decoration w" if "vs key = Some w" for key w
    proof (cases "key = k")
      case True
      with that v have "w = v" by simp
      moreover from p [rule_format, of k "v\<lparr>optional := True\<rparr>"] True
      have "\<exists>v'. vs' key = Some v' \<and> decoration v' = decoration (v\<lparr>optional := True\<rparr>)"
        by simp
      ultimately show ?thesis by simp
    next
      case False
      with p [rule_format, of key w] that show ?thesis by simp
    qed
    then show ?thesis using Some v r by simp
  qed
qed

text \<open>
  C7. For every Snapshot with a \<open>ctx_switches\<close> field and a \<open>cpucore\<close> field (each field
  having its view, as the parent's \<open>update_views\<close> provides), \<open>update_views\<close> returns and
  the decoration of \<open>ctx_switches\<close> is \<open>get_alert\<close> of the value with
  \<open>maximum = 100 * cpucore\<close>, the core count being read from the same Snapshot.
\<close>

theorem update_views_ctx_switches:
  assumes x: "map_of (stats self) ''ctx_switches'' = Some x"
    and c: "map_of (stats self) ''cpucore'' = Some c"
    and cov: "covers (stats self) views0"
  shows "\<exists>vs v. update_views E views0 self = (None, vs) \<and> vs ''ctx_switches'' = Some v \<and>
           decoration v = get_alert E x (Some (100 * c)) ''ctx_switches''"
proof -
  let ?st = "stats self"
  have a1: "\<exists>d. alert_log E key y = Inr d" for key y
    by (simp add: alert_log_def)
  have a2: "\<exists>d. alert_only E key y = Inr d" for key y
    by (simp add: alert_only_def)
  from decorate_total [of "alert_log E", OF a1 cov]
  obtain vs1 where 1: "decorate (alert_log E) ?st [''user'', ''system'', ''iowait'', ''total''] views0 = (None, vs1)"
    and c1: "covers ?st vs1"
    by blast
  from decorate_total [of "alert_only E", OF a2 c1]
  obtain vs2 where 2: "decorate (alert_only E) ?st [''steal''] vs1 = (None, vs2)"
    and c2: "covers ?st vs2"
    by blast
  from coversD [OF c2 x] obtain v2 where v2: "vs2 ''ctx_switches'' = Some v2"
    by blast
  let ?d = "get_alert E x (Some (100 * c)) ''ctx_switches''"
  let ?vs3 = "vs2(''ctx_switches'' \<mapsto> v2\<lparr>decoration := ?d\<rparr>)"
  have 3: "decorate (alert_core E ?st) ?st [''ctx_switches''] vs2 = (None, ?vs3)"
    using x c v2 by (simp add: alert_core_def lookup_def bind_err_def)
  have c3: "covers ?st ?vs3"
    using c2 by (rule covers_upd)
  from mark_optional_total [OF c3] obtain vs4 where
    4: "mark_optional ?st [''nice'', ''irq'', ''idle'', ''steal'', ''ctx_switches'',
                            ''interrupts'', ''soft_interrupts'', ''syscalls''] ?vs3 = (None, vs4)"
    and p: "\<forall>key v. ?vs3 key = Some v \<longrightarrow> (\<exists>v'. vs4 key = Some v' \<and> decoration v' = decoration v)"
    by blast
  from p [rule_format, of "''ctx_switches''" "v2\<lparr>decoration := ?d\<rparr>"]
  obtain v where v: "vs4 ''ctx_switches'' = Some v" "decoration v = ?d"
    by auto
  have "update_views E views0 self = (None, vs4)"
    by (simp only: update_views_def Let_def 1 2 3 4 prod.case option.case)
  with v show ?thesis by blast
qed

theorem update_views_ctx_switches_witness:
  "map_of (stats busy_plugin) ''ctx_switches'' = Some 5000 \<and>
   map_of (stats busy_plugin) ''cpucore'' = Some 4 \<and>
   covers (stats busy_plugin) (plain_views (stats busy_plugin)) \<and>
   (\<exists>vs v. update_views (scenario_env None None) (plain_views (stats busy_plugin)) busy_plugin
              = (None, vs) \<and>
       vs ''ctx_switches'' = Some v \<and>
       decoration v = get_alert (scenario_env None None) 5000 (Some 400) ''ctx_switches'' \<and>
       decoration v = ''CRITICAL'')"
proof -
  have x: "map_of (stats busy_plugin) ''ctx_switches'' = Some 5000"
    and c: "map_of (stats busy_plugin) ''cpucore'' = Some 4"
    by (simp_all add: busy_plugin_def cold_plugin_def)
  have cov: "covers (stats busy_plugin) (plain_views (stats busy_plugin))"
    by (simp add: covers_def plain_views_def busy_plugin_def cold_plugin_def)
  have g: "get_alert (scenario_env None None) 5000 (Some 400) ''ctx_switches'' = ''CRITICAL''"
    by (simp add: scenario_env_def)
  from update_views_ctx_switches [OF x c cov, of "scenario_env None None"] g
  show ?thesis using x c cov by auto
qed

section \<open>Properties of msg_curse\<close>

lemma second_sample_value:
  "second_sample = Inr \<lparr>nb_log_core = 4, cpu_stats_old = Some (counters 185 185 0 0),
     stats = [(''total'', 195 / 2), (''user'', 60), (''system'', 75 / 2),
              (''time_since_update'', 2), (''cpucore'', 4), (''ctx_switches'', 65),
              (''interrupts'', 65), (''soft_interrupts'', 0), (''syscalls'', 0)],
     views = Map.empty\<rparr>"
  by (simp add: first_sample_def second_sample_def update_stats_def update_local_def
      cold_plugin_def sample_of_def counters_def cpu_stats_fields_def getattr_def bind_err_def)

text \<open>
  C6 (as stated, refuted). After the samples 120 and 185 taken 2.0 seconds apart the
  emitted delta is 65, and the claim has \<open>msg_curse\<close> render 32.5 per second. The source
  floor-divides and converts to an integer: the value rendered is 32, for \<open>ctx_switches\<close>
  and for \<open>interrupts\<close> alike.
\<close>

theorem rendered_rate_counterexample:
  "rendered_rate ''ctx_switches'' = Inr 32 \<and>
   rendered_rate ''interrupts'' = Inr 32 \<and>
   real_of_int 32 \<noteq> 65 / 2 \<and>
   text_of (rendered (scenario_env None None)) =
     Inr (''CPU        97%  ctx_sw:    32'' @ [nl] @
          ''user:      60%  inter:     32'' @ [nl] @
          ''system:    37%  sw_int:     0'' @ [nl])"
proof -
  have "rendered_rate ''ctx_switches'' = Inr 32" "rendered_rate ''interrupts'' = Inr 32"
    by (simp_all add: rendered_rate_def second_sample_value bind_err_def per_second_def lookup_def)
  moreover have "text_of (rendered (scenario_env None None)) =
     Inr (''CPU        97%  ctx_sw:    32'' @ [nl] @
          ''user:      60%  inter:     32'' @ [nl] @
          ''system:    37%  sw_int:     0'' @ [nl])"
    by code_simp
  ultimately show ?thesis by simp
qed

text \<open>
  C6 (amended). For a counter field whose first sample had raw value 120 and whose second
  sample has raw value 185 with \<open>time_since_update = 2.0\<close>: the first Snapshot emits
  delta 0 and stores 120, the second Snapshot emits delta 65, and the per-second value
  that \<open>msg_curse\<close> renders for the field is 32, the emitted delta floor-divided by
  \<open>time_since_update\<close> and converted to an integer.
\<close>

theorem counter_scenario:
  "emitted (update_local cold_plugin [] (sample_of (counters 120 120 0 0) 2))
     ''ctx_switches'' = Some 0 \<and>
   stored (update_local cold_plugin [] (sample_of (counters 120 120 0 0) 2))
     = Some (counters 120 120 0 0) \<and>
   emitted (update_local (warm_plugin (counters 120 120 0 0)) []
     (sample_of (counters 185 185 0 0) 2)) ''ctx_switches'' = Some 65 \<and>
   rendered_rate ''ctx_switches'' = Inr \<lfloor>65 / (2 :: real)\<rfloor> \<and>
   rendered_rate ''ctx_switches'' = Inr 32 \<and>
   msg_ctx_switches (scenario_env None None)
     \<lparr>nb_log_core = 4, cpu_stats_old = None,
      stats = [(''time_since_update'', 2), (''ctx_switches'', 65)],
      views = [''ctx_switches'' \<mapsto> \<lparr>decoration = ''OK'', optional = True\<rparr>]\<rparr>
     = Inr [curse_add_line ''  ctx_sw: '' ''DEFAULT'' True,
            curse_add_line ''   32'' ''OK'' True]"
proof -
  have "emitted (update_local cold_plugin [] (sample_of (counters 120 120 0 0) 2))
          ''ctx_switches'' = Some 0"
    by (simp add: emitted_def update_local_def cold_plugin_def sample_of_def counters_def
        cpu_stats_fields_def)
  moreover have "stored (update_local cold_plugin [] (sample_of (counters 120 120 0 0) 2))
          = Some (counters 120 120 0 0)"
    by (simp add: stored_def update_local_def cold_plugin_def sample_of_def)
  moreover have "emitted (update_local (warm_plugin (counters 120 120 0 0)) []
          (sample_of (counters 185 185 0 0) 2)) ''ctx_switches'' = Some 65"
    by (simp add: emitted_def update_local_def warm_plugin_def cold_plugin_def sample_of_def
        counters_def cpu_stats_fields_def getattr_def)
  moreover have "rendered_rate ''ctx_switches'' = Inr 32"
    by (simp add: rendered_rate_def second_sample_value bind_err_def per_second_def lookup_def)
  moreover have "msg_ctx_switches (scenario_env None None)
     \<lparr>nb_log_core = 4, cpu_stats_old = None,
      stats = [(''time_since_update'', 2), (''ctx_switches'', 65)],
      views = [''ctx_switches'' \<mapsto> \<lparr>decoration = ''OK'', optional = True\<rparr>]\<rparr>
     = Inr [curse_add_line ''  ctx_sw: '' ''DEFAULT'' True,
            curse_add_line ''   32'' ''OK'' True]"
    by code_simp
  ultimately show ?thesis by simp
qed

text \<open>
  Whenever the trend of \<open>user\<close> is a number and the trend of \<open>system\<close> is \<open>None\<close>, a
  plugin that has stats and is shown raises \<open>TypeError\<close> from \<open>msg_curse\<close>.
\<close>

lemma msg_curse_raises:
  assumes "get_trend E ''user'' = Some u" and "get_trend E ''system'' = None"
    and "stats self \<noteq> []" and "\<not> percpu E" and "\<not> is_disabled E"
  shows "msg_curse E self = Inl TypeError"
  using assms by (simp add: msg_curse_def msg_header_def trend_cpu_def bind_err_def Let_def)

text \<open>
  C2 (the code fails the claim). With the trend of \<open>user\<close> available and the trend of
  \<open>system\<close> unavailable, the header of \<open>msg_curse\<close> adds \<open>None\<close> to a number: the call
  raises \<open>TypeError\<close> instead of showing the combined trend as unavailable. The test
  \<open>trend_user is None or trend_user is None\<close> never looks at \<open>trend_system\<close>.
\<close>

theorem msg_curse_system_trend_missing:
  "trend_cpu (Some (3 / 2)) None = Inl TypeError \<and>
   msg_header (scenario_env (Some (3 / 2)) None) = Inl TypeError \<and>
   rendered (scenario_env (Some (3 / 2)) None) = Inl TypeError \<and>
   trend_cpu None (Some 1) = Inr None \<and>
   trend_cpu None None = Inr None"
proof -
  have "rendered (scenario_env (Some (3 / 2)) None) = Inl TypeError"
    by code_simp
  then show ?thesis
    by (simp add: trend_cpu_def msg_header_def scenario_env_def bind_err_def)
qed

section \<open>Properties of the measurements\<close>

lemma collect_msgs:
  "list_all has_msg items \<Longrightarrow>
     \<exists>msgs. collect (\<lambda>i. subscript i ''msg'') items = Inr msgs \<and>
       length (filter (\<lambda>v. v = PStr [nl]) msgs) = length (filter is_sentinel items)"
proof (induction items)
  case Nil
  then show ?case by simp
next
  case (Cons i items)
  then obtain msgs where m: "collect (\<lambda>i. subscript i ''msg'') items = Inr msgs"
    and n: "length (filter (\<lambda>v. v = PStr [nl]) msgs) = length (filter is_sentinel items)"
    by auto
  from Cons.prems obtain d v where i: "i = PDict d" "map_of d ''msg'' = Some v"
    by (cases i) auto
  show ?case using m n i by (auto simp: bind_err_def)
qed

lemma collect_msgs_raises:
  "\<not> list_all has_msg items \<Longrightarrow> \<exists>e. collect (\<lambda>i. subscript i ''msg'') items = Inl e"
proof (induction items)
  case Nil
  then show ?case by simp
next
  case (Cons i items)
  show ?case
  proof (cases "has_msg i")
    case True
    with Cons obtain e where "collect (\<lambda>i. subscript i ''msg'') items = Inl e" by auto
    then show ?thesis by (cases "subscript i ''msg''") (simp_all add: bind_err_def)
  next
    case False
    then have "\<exists>e. subscript i ''msg'' = Inl e"
      by (cases i) (auto split: option.splits)
    then show ?thesis by (auto simp: bind_err_def)
  qed
qed

lemma get_height_well_formed:
  "well_formed sd \<Longrightarrow> get_height sd = (sentinels sd + 1, [])"
proof -
  assume wf: "well_formed sd"
  then obtain items where f: "fragments sd = Some items" and a: "list_all has_msg items"
    by (auto simp: well_formed_def split: option.splits)
  from f obtain m where s: "subscript sd ''msgdict'' = Inr m" and it: "iterate m = Inr items"
    by (auto simp: fragments_def split: sum.splits)
  from collect_msgs [OF a] obtain msgs where
    c: "collect (\<lambda>i. subscript i ''msg'') items = Inr msgs"
    and n: "length (filter (\<lambda>v. v = PStr [nl]) msgs) = length (filter is_sentinel items)"
    by blast
  show ?thesis
    using s it c n f by (simp add: get_height_def get_height_try_def bind_err_def sentinels_def)
qed

lemma get_height_malformed:
  "\<not> well_formed sd \<Longrightarrow> \<exists>e. get_height_try sd = Inl e"
proof -
  assume nwf: "\<not> well_formed sd"
  show ?thesis
  proof (cases "fragments sd")
    case None
    then show ?thesis
      by (auto simp: fragments_def get_height_try_def bind_err_def split: sum.splits)
  next
    case (Some items)
    then obtain m where s: "subscript sd ''msgdict'' = Inr m" and it: "iterate m = Inr items"
      by (auto simp: fragments_def split: sum.splits)
    from nwf Some have "\<not> list_all has_msg items" by (simp add: well_formed_def)
    from collect_msgs_raises [OF this] s it show ?thesis
      by (auto simp: get_height_try_def bind_err_def)
  qed
qed

lemma collect_raises:
  "i \<in> set items \<Longrightarrow> f i = Inl e \<Longrightarrow> \<exists>e'. collect f items = Inl e'"
proof (induction items)
  case Nil
  then show ?case by simp
next
  case (Cons j items)
  show ?case
  proof (cases "f j")
    case (Inl e')
    then show ?thesis by (simp add: bind_err_def)
  next
    case (Inr y)
    with Cons.prems have "i \<in> set items" by auto
    from Cons.IH [OF this Cons.prems(2)] Inr show ?thesis
      by (auto simp: bind_err_def)
  qed
qed

lemma no_msg_raises:
  "\<not> has_msg i \<Longrightarrow> \<exists>e. subscript i ''msg'' = Inl e"
  by (cases i) (auto split: option.splits)

lemma get_width_malformed:
  assumes "\<not> well_formed sd"
  shows "\<exists>e. get_width_try encode sd False = Inl e"
proof (cases "fragments sd")
  case None
  then show ?thesis
    by (auto simp: fragments_def get_width_try_def bind_err_def split: sum.splits)
next
  case (Some items)
  then obtain m where s: "subscript sd ''msgdict'' = Inr m" and it: "iterate m = Inr items"
    by (auto simp: fragments_def split: sum.splits)
  from assms Some obtain i where i: "i \<in> set items" "\<not> has_msg i"
    by (auto simp: well_formed_def list_all_iff)
  from no_msg_raises [OF i(2)] obtain e where "width_item encode False i = Inl e"
    by (auto simp: width_item_def bind_err_def)
  from collect_raises [of i items "width_item encode False" e, OF i(1) this] s it show ?thesis
    by (auto simp: get_width_try_def bind_err_def)
qed

lemma get_width_no_fragments:
  "fragments sd = None \<Longrightarrow> \<exists>e. get_width_try encode sd wo = Inl e"
  by (auto simp: fragments_def get_width_try_def bind_err_def split: sum.splits)

lemma item_measured:
  "has_optional i \<and> (flagged i \<or> encodes encode i) \<longleftrightarrow>
     (\<exists>s. width_item encode True i = Inr s)"
proof (cases i)
  case (PDict d)
  show ?thesis
  proof (cases "map_of d ''optional''")
    case None
    with PDict show ?thesis by (simp add: width_item_def bind_err_def)
  next
    case (Some opt)
    with PDict show ?thesis
      by (cases "truthy opt")
         (auto simp: width_item_def bind_err_def encodes_def split: option.splits sum.splits)
  qed
qed (simp_all add: width_item_def bind_err_def)

lemma collect_returns:
  "list_all (\<lambda>i. \<exists>y. f i = Inr y) items \<Longrightarrow> \<exists>ys. collect f items = Inr ys"
  by (induction items) (auto simp: bind_err_def)

lemma get_width_measurable:
  assumes "measurable encode sd"
  shows "\<exists>c. get_width_try encode sd True = Inr c \<and> get_width encode sd True = (c, [])"
proof -
  from assms obtain items where f: "fragments sd = Some items"
    and a: "list_all (\<lambda>i. has_optional i \<and> (flagged i \<or> encodes encode i)) items"
    by (auto simp: measurable_def split: option.splits)
  from f obtain m where s: "subscript sd ''msgdict'' = Inr m" and it: "iterate m = Inr items"
    by (auto simp: fragments_def split: sum.splits)
  from a have "list_all (\<lambda>i. \<exists>y. width_item encode True i = Inr y) items"
    by (simp add: list_all_iff item_measured)
  from collect_returns [OF this] obtain parts where
    "collect (width_item encode True) items = Inr parts" by blast
  with s it show ?thesis
    by (simp add: get_width_try_def get_width_def bind_err_def)
qed

lemma get_width_not_measurable:
  assumes "\<not> measurable encode sd"
  shows "\<exists>e. get_width_try encode sd True = Inl e"
proof (cases "fragments sd")
  case None
  then show ?thesis by (rule get_width_no_fragments)
next
  case (Some items)
  then obtain m where s: "subscript sd ''msgdict'' = Inr m" and it: "iterate m = Inr items"
    by (auto simp: fragments_def split: sum.splits)
  from assms Some obtain i where i: "i \<in> set items"
    "\<not> (has_optional i \<and> (flagged i \<or> encodes encode i))"
    by (auto simp: measurable_def list_all_iff)
  from i(2) obtain e where "width_item encode True i = Inl e"
    using item_measured [of i encode] by (cases "width_item encode True i") auto
  from collect_raises [of i items "width_item encode True" e, OF i(1) this] s it show ?thesis
    by (auto simp: get_width_try_def bind_err_def)
qed

text \<open>
  C8 (as stated, refuted). The claim has \<open>_get_width\<close> give 0 on malformed content in
  both modes. The second fragment here has no \<open>'msg'\<close>: the height and the width with
  the optional fragments are 0, but without them the fragment is skipped before its
  \<open>'msg'\<close> is read, and the width is 3.
\<close>

theorem skipped_fragment_counterexample:
  "\<not> well_formed skipped_msg \<and>
   fst (get_height skipped_msg) = 0 \<and>
   fst (get_width demo_encode skipped_msg False) = 0 \<and>
   get_width demo_encode skipped_msg True = (3, []) \<and>
   fst (get_width demo_encode skipped_msg True) \<noteq> 0"
  by code_simp

text \<open>
  C8 (amended). The measurements never raise. \<open>_get_height\<close> gives the number of
  line-break sentinels plus one on well-formed content and 0 on any other content.
  \<open>_get_width\<close> with the optional fragments gives 0 on content that is not well formed.
  \<open>_get_width\<close> without the optional fragments gives 0 when the fragments cannot be
  listed, when a fragment has no \<open>'optional'\<close>, or when a fragment that is not flagged
  optional has no \<open>'msg'\<close> that can be encoded; on all other content, also when a
  fragment flagged optional is malformed, it returns the width its body computes.
\<close>

theorem measurements_degrade:
  "fst (get_height sd) = (if well_formed sd then sentinels sd + 1 else 0) \<and>
   (\<not> well_formed sd \<longrightarrow> fst (get_width encode sd False) = 0) \<and>
   (\<not> measurable encode sd \<longrightarrow> fst (get_width encode sd True) = 0) \<and>
   (measurable encode sd \<longrightarrow>
      (\<exists>c. get_width_try encode sd True = Inr c \<and> get_width encode sd True = (c, [])))"
proof (intro conjI impI)
  show "fst (get_height sd) = (if well_formed sd then sentinels sd + 1 else 0)"
  proof (cases "well_formed sd")
    case True
    then show ?thesis by (simp add: get_height_well_formed)
  next
    case False
    from get_height_malformed [OF False] show ?thesis
      using False by (auto simp: get_height_def)
  qed
next
  assume "\<not> well_formed sd"
  from get_width_malformed [OF this, of encode] show "fst (get_width encode sd False) = 0"
    by (auto simp: get_width_def)
next
  assume "\<not> measurable encode sd"
  from get_width_not_measurable [OF this] show "fst (get_width encode sd True) = 0"
    by (auto simp: get_width_def)
next
  assume "measurable encode sd"
  then show "\<exists>c. get_width_try encode sd True = Inr c \<and> get_width encode sd True = (c, [])"
    by (rule get_width_measurable)
qed

theorem measurements_degrade_witness:
  "well_formed cpu_display \<and> measurable demo_encode cpu_display \<and>
   fst (get_height cpu_display) = 2 \<and>
   get_width demo_encode cpu_display True = (10, []) \<and>
   \<not> well_formed no_msgdict \<and> \<not> measurable demo_encode no_msgdict \<and>
   fst (get_height no_msgdict) = 0 \<and>
   fst (get_width demo_encode no_msgdict False) = 0 \<and>
   fst (get_width demo_encode no_msgdict True) = 0 \<and>
   well_formed no_optional \<and> \<not> measurable demo_encode no_optional \<and>
   fst (get_height no_optional) = 1 \<and>
   fst (get_width demo_encode no_optional True) = 0 \<and>
   \<not> well_formed skipped_msg \<and> measurable demo_encode skipped_msg \<and>
   fst (get_height skipped_msg) = 0 \<and>
   fst (get_width demo_encode skipped_msg False) = 0 \<and>
   get_width demo_encode skipped_msg True = (3, [])"
proof -
  have c: "well_formed cpu_display" "measurable demo_encode cpu_display"
    "sentinels cpu_display = 1" "get_width_try demo_encode cpu_display True = Inr 10"
    by code_simp+
  have n: "\<not> well_formed no_msgdict" "\<not> measurable demo_encode no_msgdict"
    by code_simp+
  have o: "well_formed no_optional" "\<not> measurable demo_encode no_optional"
    "sentinels no_optional = 0"
    by code_simp+
  have s: "\<not> well_formed skipped_msg" "measurable demo_encode skipped_msg"
    "get_width_try demo_encode skipped_msg True = Inr 3"
    by code_simp+
  from measurements_degrade [of cpu_display demo_encode]
       measurements_degrade [of no_msgdict demo_encode]
       measurements_degrade [of no_optional demo_encode]
       measurements_degrade [of skipped_msg demo_encode]
       c n o s
  show ?thesis by simp
qed

section \<open>Properties of the layout\<close>

lemma zone_regions_sound:
  assumes "zone_regions mk sd ps = Inr rs"
  shows "\<forall>r \<in> set rs. \<exists>p d. r = mk p d \<and> p \<in> set ps \<and> sd p = Some d \<and>
            truthy (display d) \<and> data d \<noteq> []"
  using assms
proof (induction ps arbitrary: rs)
  case Nil
  then show ?case by simp
next
  case (Cons p ps)
  from Cons.prems obtain d where d: "sd p = Some d"
    by (auto split: option.splits)
  show ?case
  proof (cases "truthy (display d) \<and> length (data d) > 0")
    case True
    with Cons.prems d obtain rs' where r: "zone_regions mk sd ps = Inr rs'" "rs = mk p d # rs'"
      by (auto simp: bind_err_def split: sum.splits)
    show ?thesis
    proof
      fix x assume "x \<in> set rs"
      with r(2) consider "x = mk p d" | "x \<in> set rs'" by auto
      then show "\<exists>q d. x = mk q d \<and> q \<in> set (p # ps) \<and> sd q = Some d \<and>
                   truthy (display d) \<and> data d \<noteq> []"
      proof cases
        case 1
        with True d show ?thesis by auto
      next
        case 2
        with Cons.IH [OF r(1)] obtain q d' where "x = mk q d'" "q \<in> set ps" "sd q = Some d'"
          "truthy (display d')" "data d' \<noteq> []" by blast
        then show ?thesis by auto
      qed
    qed
  next
    case False
    with Cons.prems d have "zone_regions mk sd ps = Inr rs" by auto
    from Cons.IH [OF this] show ?thesis by fastforce
  qed
qed

lemma composed_panels_displayed:
  assumes "compose_layout sd = Inr tree"
  shows "list_all (shown sd) (top_row tree) \<and>
         (\<exists>lefts. middle_left_column tree = lefts @ [Region ''middle_left_padding'' None None] \<and>
              list_all (shown sd) lefts) \<and>
         list_all (shown sd) (middle_right_column tree)"
proof -
  from assms obtain tops lefts rights where
    t: "zone_regions top_region sd top_zone = Inr tops"
    and l: "zone_regions middle_left_region sd middle_left_zone = Inr lefts"
    and r: "zone_regions middle_right_region sd middle_right_zone = Inr rights"
    and tr: "top_row tree = tops"
      "middle_left_column tree = lefts @ [Region ''middle_left_padding'' None None]"
      "middle_right_column tree = rights"
    by (auto simp: compose_layout_def bind_err_def split: sum.splits)
  have "list_all (shown sd) tops"
    unfolding list_all_iff
  proof
    fix x assume "x \<in> set tops"
    with zone_regions_sound [OF t] obtain p d where
      "x = top_region p d" "sd p = Some d" "truthy (display d)" "data d \<noteq> []"
      by blast
    then show "shown sd x"
      by (cases "p = ''quicklook''") (simp_all add: shown_def top_region_def)
  qed
  moreover have "list_all (shown sd) lefts"
    unfolding list_all_iff
  proof
    fix x assume "x \<in> set lefts"
    with zone_regions_sound [OF l] obtain p d where
      "x = middle_left_region p d" "sd p = Some d" "truthy (display d)" "data d \<noteq> []"
      by blast
    then show "shown sd x"
      by (simp add: shown_def middle_left_region_def)
  qed
  moreover have "list_all (shown sd) rights"
    unfolding list_all_iff
  proof
    fix x assume "x \<in> set rights"
    with zone_regions_sound [OF r] obtain p d where
      "x = middle_right_region p d" "sd p = Some d" "truthy (display d)" "data d \<noteq> []"
      by blast
    then show "shown sd x"
      by (cases "p = ''processlist''") (simp_all add: shown_def middle_right_region_def)
  qed
  ultimately show ?thesis using tr by simp
qed


lemma touched_nothing: "touched False [] w = w"
  by (simp add: touched_def)

lemma touched_touched: "touched m' l' (touched m l w) = touched (m \<or> m') (l @ l') w"
  by (simp add: touched_def)

lemma plugin_to_rich_frame:
  "\<exists>r m l. \<forall>w. plugin_to_rich encode st p w = (r, touched m l w)"
proof (cases "get_plugin st p")
  case None
  then have "\<forall>w. plugin_to_rich encode st p w = (Inr empty_ret, touched False [] w)"
    by (simp add: plugin_to_rich_def touched_nothing)
  then show ?thesis by blast
next
  case (Some pl)
  let ?m = "p = ''processlist''"
  have w1: "(if ?m then w\<lparr>max_processes := Some 10\<rparr> else w) = touched ?m [] w" for w
    by (simp add: touched_def)
  let ?mw = "if p \<in> set middle_left_zone then Some middle_left_width else None"
  show ?thesis
  proof (cases "pl ?mw")
    case (Inl e)
    then have "\<forall>w. plugin_to_rich encode st p w = (Inl e, touched ?m [] w)"
      using Some by (simp add: plugin_to_rich_def Let_def w1)
    then show ?thesis by blast
  next
    case (Inr sd)
    show ?thesis
    proof (cases "bind_err (subscript sd ''msgdict'') (\<lambda>m.
                        bind_err (iterate m) (\<lambda>items.
                        bind_err (collect (\<lambda>i. subscript i ''msg'') items) join))")
      case (Inl e)
      then have "\<forall>w. plugin_to_rich encode st p w = (Inl e, touched ?m [] w)"
        using Some \<open>pl ?mw = Inr sd\<close> by (simp add: plugin_to_rich_def Let_def w1)
      then show ?thesis by blast
    next
      case (Inr joined)
      obtain wd lw where gw: "get_width encode sd False = (wd, lw)" by (cases "get_width encode sd False")
      obtain ht lh where gh: "get_height sd = (ht, lh)" by (cases "get_height sd")
      have w2: "touched ?m [] w\<lparr>logger := logger (touched ?m [] w) @ lw @ lh\<rparr> = touched ?m (lw @ lh) w" for w
        by (simp add: touched_def)
      show ?thesis
      proof (cases "subscript sd ''display''")
        case (Inl e)
        then have "\<forall>w. plugin_to_rich encode st p w = (Inl e, touched ?m (lw @ lh) w)"
          using Some \<open>pl ?mw = Inr sd\<close> Inr gw gh
          by (simp add: plugin_to_rich_def Let_def w1 w2)
        then show ?thesis by blast
      next
        case (Inr d)
        then have "\<forall>w. plugin_to_rich encode st p w =
            (Inr \<lparr>title = capitalize p, subtitle = [], data = joined,
                  width = wd + 4, height = ht + 2, display = d\<rparr>, touched ?m (lw @ lh) w)"
          using Some \<open>pl ?mw = Inr sd\<close> \<open>_ = Inr joined\<close> gw gh
          by (simp add: plugin_to_rich_def Let_def w1 w2)
        then show ?thesis by blast
      qed
    qed
  qed
qed

lemma plugins_loop_frame:
  "\<exists>r m l. \<forall>w. plugins_loop encode st ps ret w = (r, touched m l w)"
proof (induction ps arbitrary: ret)
  case Nil
  have "\<forall>w. plugins_loop encode st [] ret w = (Inr ret, touched False [] w)"
    by (simp add: touched_nothing)
  then show ?case by blast
next
  case (Cons p ps)
  obtain r m l where f: "\<forall>w. plugin_to_rich encode st p w = (r, touched m l w)"
    using plugin_to_rich_frame by blast
  show ?case
  proof (cases r)
    case (Inl e)
    with f have "\<forall>w. plugins_loop encode st (p # ps) ret w = (Inl e, touched m l w)"
      by simp
    then show ?thesis by blast
  next
    case (Inr d)
    from Cons [of "ret(p \<mapsto> d)"] obtain r' m' l' where
      g: "\<forall>w. plugins_loop encode st ps (ret(p \<mapsto> d)) w = (r', touched m' l' w)"
      by blast
    from f g Inr have "\<forall>w. plugins_loop encode st (p # ps) ret w = (r', touched (m \<or> m') (l @ l') w)"
      by (simp add: touched_touched)
    then show ?thesis by blast
  qed
qed

lemma update_layout_frame:
  "\<exists>r m l. \<forall>w. update_layout encode st w = (r, touched m l w)"
proof -
  obtain r m l where f: "\<forall>w. plugins_to_rich encode st w = (r, touched m l w)"
    unfolding plugins_to_rich_def using plugins_loop_frame by blast
  show ?thesis
  proof (cases r)
    case (Inl e)
    with f have "\<forall>w. update_layout encode st w = (Inl e, touched m l w)"
      by (simp add: update_layout_def)
    then show ?thesis by blast
  next
    case (Inr sd)
    with f have "\<forall>w. update_layout encode st w = (compose_layout sd, touched m l w)"
      by (simp add: update_layout_def)
    then show ?thesis by blast
  qed
qed

lemma demo_layout:
  "fst (update_layout demo_encode (demo_stats False) world0) = Inr demo_tree"
  by code_simp

lemma demo_layout_raises:
  "fst (update_layout demo_encode (demo_stats True) world0) = Inl (Raised ''mem'')"
  by code_simp

text \<open>
  C4. Every region that \<open>update_layout\<close> places in the top row, in the left column of the
  middle (before its trailing padding) and in the right column of the middle stands for
  a descriptor with a true \<open>display\<close> and non-empty \<open>data\<close>, and a region's panel holds
  that descriptor's data.
\<close>

theorem update_layout_panels_displayed:
  assumes "fst (update_layout encode st w) = Inr tree"
  shows "\<exists>stats_display. fst (plugins_to_rich encode st w) = Inr stats_display \<and>
           list_all (shown stats_display) (top_row tree) \<and>
           (\<exists>lefts. middle_left_column tree = lefts @ [Region ''middle_left_padding'' None None] \<and>
                list_all (shown stats_display) lefts) \<and>
           list_all (shown stats_display) (middle_right_column tree)"
proof (cases "plugins_to_rich encode st w")
  case (Pair r w')
  show ?thesis
  proof (cases r)
    case (Inl e)
    with Pair assms show ?thesis by (simp add: update_layout_def)
  next
    case (Inr sd)
    with Pair assms have "compose_layout sd = Inr tree"
      by (simp add: update_layout_def)
    from composed_panels_displayed [OF this] Pair Inr show ?thesis by simp
  qed
qed

theorem update_layout_panels_displayed_witness:
  "fst (update_layout demo_encode (demo_stats False) world0) = Inr demo_tree \<and>
   (\<exists>stats_display.
      fst (plugins_to_rich demo_encode (demo_stats False) world0) = Inr stats_display \<and>
      list_all (shown stats_display) (top_row demo_tree) \<and>
      (\<exists>lefts. middle_left_column demo_tree = lefts @ [Region ''middle_left_padding'' None None] \<and>
           list_all (shown stats_display) lefts) \<and>
      list_all (shown stats_display) (middle_right_column demo_tree)) \<and>
   map region_name (top_row demo_tree) = [''cpu''] \<and>
   map region_name (middle_right_column demo_tree) = [''processlist'']"
  using demo_layout update_layout_panels_displayed [OF demo_layout]
  by (simp add: demo_tree_def)

text \<open>
  C3 (as stated, refuted). The claim has a plugin whose fetch raises left out while the
  other panels are composed. When the display of \<open>mem\<close> raises, \<open>update_layout\<close> raises
  the same exception and composes nothing, although \<open>cpu\<close>, \<open>network\<close>, \<open>processlist\<close>
  and \<open>now\<close> are ready; without the failure the tree is composed.
\<close>

theorem fetch_failure_counterexample:
  "fst (update_layout demo_encode (demo_stats True) world0) = Inl (Raised ''mem'') \<and>
   fst (update_layout demo_encode (demo_stats False) world0) = Inr demo_tree"
  using demo_layout demo_layout_raises by simp

lemma plugin_to_rich_raises:
  assumes "get_plugin st p = Some pl"
    and "pl (if p \<in> set middle_left_zone then Some middle_left_width else None) = Inl e"
  shows "fst (plugin_to_rich encode st p w) = Inl e"
  using assms by (simp add: plugin_to_rich_def Let_def)

lemma plugins_loop_raises:
  assumes "p \<in> set ps" and "\<And>w. fst (plugin_to_rich encode st p w) = Inl e"
  shows "\<exists>e'. fst (plugins_loop encode st ps ret w) = Inl e'"
  using assms(1)
proof (induction ps arbitrary: ret w)
  case Nil
  then show ?case by simp
next
  case (Cons q ps)
  obtain r w' where q: "plugin_to_rich encode st q w = (r, w')"
    by (cases "plugin_to_rich encode st q w")
  show ?case
  proof (cases r)
    case (Inl e')
    with q show ?thesis by simp
  next
    case (Inr d)
    with q assms(2) [of w] have "q \<noteq> p" by auto
    with Cons.prems have "p \<in> set ps" by simp
    from Cons.IH [OF this, of "ret(q \<mapsto> d)" w'] obtain e' where
      "fst (plugins_loop encode st ps (ret(q \<mapsto> d)) w') = Inl e'" by blast
    then show ?thesis using q Inr by simp
  qed
qed

text \<open>
  C3 (amended). If fetching the panel descriptor of one listed plugin raises, the
  exception leaves \<open>plugins_to_rich\<close> and \<open>update_layout\<close>: the rebuild is aborted and no
  tree is composed for the cycle.
\<close>

theorem fetch_failure_aborts:
  assumes "p \<in> set (getPluginsList st)"
    and "get_plugin st p = Some pl"
    and "pl (if p \<in> set middle_left_zone then Some middle_left_width else None) = Inl e"
  shows "\<exists>e'. fst (plugins_to_rich encode st w) = Inl e' \<and>
               fst (update_layout encode st w) = Inl e'"
proof -
  from plugins_loop_raises [OF assms(1), of encode st e Map.empty w]
       plugin_to_rich_raises [OF assms(2,3)]
  obtain e' where "fst (plugins_to_rich encode st w) = Inl e'"
    by (auto simp: plugins_to_rich_def)
  then have "fst (update_layout encode st w) = Inl e'"
    by (cases "plugins_to_rich encode st w") (simp add: update_layout_def)
  with \<open>fst (plugins_to_rich encode st w) = Inl e'\<close> show ?thesis by blast
qed

theorem fetch_failure_aborts_witness:
  "''mem'' \<in> set (getPluginsList (demo_stats True)) \<and>
   get_plugin (demo_stats True) ''mem'' = Some (\<lambda>max_width. Inl (Raised ''mem'')) \<and>
   (\<exists>e'. fst (plugins_to_rich demo_encode (demo_stats True) world0) = Inl e' \<and>
         fst (update_layout demo_encode (demo_stats True) world0) = Inl e')"
proof -
  have l: "''mem'' \<in> set (getPluginsList (demo_stats True))"
    by (simp add: demo_stats_def top_zone_def)
  have g: "get_plugin (demo_stats True) ''mem'' = Some (\<lambda>max_width. Inl (Raised ''mem''))"
    by (simp add: demo_stats_def demo_plugins_def)
  have r: "(\<lambda>max_width :: nat option. (Inl (Raised ''mem'') :: error + pyval))
             (if ''mem'' \<in> set middle_left_zone then Some middle_left_width else None)
           = Inl (Raised ''mem'')"
    by simp
  from fetch_failure_aborts [OF l g r, of demo_encode world0] l g show ?thesis
    by blast
qed

text \<open>
  C10 (as stated, refuted). The claim has \<open>_plugin_to_rich\<close> leave the shared process
  registry alone. For the plugin \<open>processlist\<close> it sets \<open>max_processes\<close> to 10.
\<close>

theorem max_processes_counterexample:
  "max_processes world0 = None \<and>
   max_processes (snd (plugin_to_rich demo_encode (demo_stats False) ''processlist'' world0))
     = Some 10 \<and>
   max_processes (snd (plugin_to_rich demo_encode (demo_stats False) ''processlist'' world0))
     \<noteq> max_processes world0"
  by (simp add: world0_def plugin_to_rich_def demo_stats_def demo_plugins_def Let_def
      split: sum.splits prod.splits)

text \<open>
  C10 (amended). \<open>_plugin_to_rich\<close> leaves \<open>max_processes\<close> of the shared process registry
  as it was for every plugin other than \<open>processlist\<close>, and for \<open>processlist\<close> when the
  plugin is not loaded; for a loaded \<open>processlist\<close> it sets \<open>max_processes\<close> to 10.
\<close>

theorem plugin_to_rich_max_processes:
  "max_processes (snd (plugin_to_rich encode st p w)) =
     (if p = ''processlist'' \<and> get_plugin st p \<noteq> None then Some 10 else max_processes w)"
  by (cases "get_plugin st p")
     (auto simp: plugin_to_rich_def Let_def split: sum.splits prod.splits)


section \<open>Properties of update\<close>

lemma exit_key_code:
  "is_exit_key c \<longleftrightarrow> (of_char c = (27 :: int) \<or> of_char c = (113 :: int))"
proof -
  have "(of_char c = (27 :: int)) = (of_char c = (of_char (CHR 0x1B) :: int))" by simp
  moreover have "(of_char c = (113 :: int)) = (of_char c = (of_char (CHR ''q'') :: int))" by simp
  ultimately show ?thesis
    by (simp only: is_exit_key_def of_char_eq_iff)
qed

lemma refresh_loop_exit:
  "refresh_loop ks True pressed n = (True, pressed, n)"
  by (cases ks) simp_all

lemma refresh_loop_run:
  "\<exists>keys. refresh_loop ticks False pressed n =
             (list_ex exit_tick ticks, pressed @ keys, n + length keys) \<and>
          (list_ex exit_tick ticks \<longleftrightarrow> 27 \<in> set keys \<or> 113 \<in> set keys) \<and>
          (\<not> list_ex exit_tick ticks \<longrightarrow> length keys = length ticks)"
proof (induction ticks arbitrary: pressed n)
  case Nil
  then show ?case by simp
next
  case (Cons k ticks)
  show ?case
  proof (cases k)
    case None
    from Cons [of "pressed @ [- 1]" "n + 1"] obtain keys where
      r: "refresh_loop ticks False (pressed @ [- 1]) (n + 1) =
             (list_ex exit_tick ticks, (pressed @ [- 1]) @ keys, (n + 1) + length keys)"
      and e: "list_ex exit_tick ticks \<longleftrightarrow> 27 \<in> set keys \<or> 113 \<in> set keys"
      and l: "\<not> list_ex exit_tick ticks \<longrightarrow> length keys = length ticks"
      by blast
    have "refresh_loop (k # ticks) False pressed n =
            (list_ex exit_tick (k # ticks), pressed @ (- 1 # keys), n + length (- 1 # keys))"
      using None r by (simp add: exit_tick_def)
    moreover have "list_ex exit_tick (k # ticks) \<longleftrightarrow> 27 \<in> set (- 1 # keys) \<or> 113 \<in> set (- 1 # keys)"
      using None e by (simp add: exit_tick_def)
    moreover have "\<not> list_ex exit_tick (k # ticks) \<longrightarrow> length (- 1 # keys) = length (k # ticks)"
      using None l by (simp add: exit_tick_def)
    ultimately show ?thesis by blast
  next
    case (Some c)
    show ?thesis
    proof (cases "is_exit_key c")
      case True
      have "refresh_loop (k # ticks) False pressed n =
            (list_ex exit_tick (k # ticks), pressed @ [of_char c], n + length [of_char c :: int])"
        using Some True by (simp add: exit_tick_def refresh_loop_exit)
      moreover have "list_ex exit_tick (k # ticks) \<longleftrightarrow>
          27 \<in> set [of_char c :: int] \<or> 113 \<in> set [of_char c :: int]"
        using Some True exit_key_code [of c] by (auto simp: exit_tick_def)
      moreover have "\<not> list_ex exit_tick (k # ticks) \<longrightarrow> length [of_char c :: int] = length (k # ticks)"
        using Some True by (simp add: exit_tick_def)
      ultimately show ?thesis by blast
    next
      case False
      from Cons [of "pressed @ [of_char c]" "n + 1"] obtain keys where
        r: "refresh_loop ticks False (pressed @ [of_char c]) (n + 1) =
               (list_ex exit_tick ticks, (pressed @ [of_char c]) @ keys, (n + 1) + length keys)"
        and e: "list_ex exit_tick ticks \<longleftrightarrow> 27 \<in> set keys \<or> 113 \<in> set keys"
        and l: "\<not> list_ex exit_tick ticks \<longrightarrow> length keys = length ticks"
        by blast
      have "refresh_loop (k # ticks) False pressed n =
            (list_ex exit_tick (k # ticks), pressed @ (of_char c # keys), n + length (of_char c # keys))"
        using Some False r by (simp add: exit_tick_def)
      moreover have "list_ex exit_tick (k # ticks) \<longleftrightarrow>
          27 \<in> set (of_char c # keys) \<or> 113 \<in> set (of_char c # keys)"
        using Some False e exit_key_code [of c] by (auto simp: exit_tick_def)
      moreover have "\<not> list_ex exit_tick (k # ticks) \<longrightarrow> length (of_char c # keys) = length (k # ticks)"
        using Some False l by (simp add: exit_tick_def)
      ultimately show ?thesis by blast
    qed
  qed
qed

text \<open>
  C9. When the layout is composed, \<open>update\<close> returns, and it returns true exactly when a
  key decoded during the cycle is escape (27) or \<open>q\<close> (113); when it returns false the
  loop has run through every tick to the end of the countdown, whatever other keys were
  decoded.
\<close>

theorem update_exit_key:
  assumes "fst (update_layout encode st w) = Inr tree"
  shows "returned (fst (update encode st duration ticks w)) = Inr (list_ex exit_tick ticks) \<and>
         (list_ex exit_tick ticks \<longleftrightarrow>
            27 \<in> set (pressedkeys (fst (update encode st duration ticks w))) \<or>
            113 \<in> set (pressedkeys (fst (update encode st duration ticks w)))) \<and>
         (\<not> list_ex exit_tick ticks \<longrightarrow>
            length (pressedkeys (fst (update encode st duration ticks w))) = length ticks \<and>
            redrawn (fst (update encode st duration ticks w)) = length ticks)"
proof -
  obtain r m l where f: "\<forall>w. update_layout encode st w = (r, touched m l w)"
    using update_layout_frame by blast
  with assms have r: "r = Inr tree" by simp
  obtain keys where
    k: "refresh_loop ticks False [] 0 = (list_ex exit_tick ticks, [] @ keys, 0 + length keys)"
    and e: "list_ex exit_tick ticks \<longleftrightarrow> 27 \<in> set keys \<or> 113 \<in> set keys"
    and n: "\<not> list_ex exit_tick ticks \<longrightarrow> length keys = length ticks"
    using refresh_loop_run [of ticks "[]" 0] by blast
  have "fst (update encode st duration ticks w) =
          \<lparr>countdown = (if duration \<le> 0 then 0.1 else duration),
           returned = Inr (list_ex exit_tick ticks), pressedkeys = keys,
           redrawn = length keys\<rparr>"
    using f r k by (simp add: update_def Let_def)
  with e n show ?thesis by simp
qed

theorem update_exit_key_witness:
  "fst (update_layout demo_encode (demo_stats False) world0) = Inr demo_tree \<and>
   list_ex exit_tick [None, Some CHR ''a'', None, Some CHR ''q'', None] \<and>
   returned (fst (update demo_encode (demo_stats False) 3
               [None, Some CHR ''a'', None, Some CHR ''q'', None] world0)) = Inr True \<and>
   \<not> list_ex exit_tick [None, Some CHR ''a'', None] \<and>
   returned (fst (update demo_encode (demo_stats False) 3
               [None, Some CHR ''a'', None] world0)) = Inr False \<and>
   length (pressedkeys (fst (update demo_encode (demo_stats False) 3
               [None, Some CHR ''a'', None] world0))) = 3 \<and>
   redrawn (fst (update demo_encode (demo_stats False) 3
               [None, Some CHR ''a'', None] world0)) = 3"
proof -
  have a: "list_ex exit_tick [None, Some CHR ''a'', None, Some CHR ''q'', None]"
    and b: "\<not> list_ex exit_tick [None, Some CHR ''a'', None]"
    by (simp_all add: exit_tick_def is_exit_key_def)
  from update_exit_key [OF demo_layout, of 3 "[None, Some CHR ''a'', None, Some CHR ''q'', None]"]
       update_exit_key [OF demo_layout, of 3 "[None, Some CHR ''a'', None]"]
       a b demo_layout
  show ?thesis by simp
qed

text \<open>
  C5 (as stated, refuted). The claim has the call proceed without raising for every
  duration \<open>d \<le> 0\<close>. With \<open>d = -0.5\<close> and a plugin whose display raises, \<open>update\<close>
  raises that exception before it polls a key or redraws.
\<close>

theorem update_raises_counterexample:
  "(- 0.5 :: real) \<le> 0 \<and>
   returned (fst (update demo_encode (demo_stats True) (- 0.5) [None, Some CHR ''a''] world0))
     = Inl (Raised ''mem'') \<and>
   pressedkeys (fst (update demo_encode (demo_stats True) (- 0.5) [None, Some CHR ''a''] world0))
     = [] \<and>
   redrawn (fst (update demo_encode (demo_stats True) (- 0.5) [None, Some CHR ''a''] world0))
     = 0"
  by code_simp

text \<open>
  C5 (amended). For every duration \<open>d \<le> 0\<close> given to \<open>update\<close>, the countdown is started
  with 0.1, the warning is logged, and the call goes on as the call with duration 0.1
  does; for \<open>d > 0\<close> the countdown is started with \<open>d\<close> and no warning is logged. Whatever
  the duration, \<open>update\<close> returns when \<open>update_layout\<close> composes the layout, and an
  exception that leaves \<open>update\<close> is the one that \<open>update_layout\<close> raises.
\<close>

theorem update_duration_floor:
  "(duration \<le> 0 \<longrightarrow>
      countdown (fst (update encode st duration ticks w)) = 0.1 \<and>
      (\<exists>rest. logger (snd (update encode st duration ticks w)) =
         logger w @ Warning ''Update and export time higher than refresh_time.'' # rest) \<and>
      returned (fst (update encode st duration ticks w)) =
        returned (fst (update encode st 0.1 ticks w))) \<and>
   (0 < duration \<longrightarrow>
      countdown (fst (update encode st duration ticks w)) = duration \<and>
      logger (snd (update encode st duration ticks w)) =
        logger (snd (update_layout encode st w))) \<and>
   (\<forall>tree. fst (update_layout encode st w) = Inr tree \<longrightarrow>
        (\<exists>b. returned (fst (update encode st duration ticks w)) = Inr b)) \<and>
   (\<forall>e. returned (fst (update encode st duration ticks w)) = Inl e \<longrightarrow>
        fst (update_layout encode st w) = Inl e)"
proof -
  obtain r m l where f: "\<forall>w. update_layout encode st w = (r, touched m l w)"
    using update_layout_frame by blast
  obtain b keys n where k: "refresh_loop ticks False [] 0 = (b, keys, n)"
    by (cases "refresh_loop ticks False [] 0") auto
  show ?thesis
  proof (cases r)
    case (Inl e)
    with f show ?thesis
      by (simp add: update_def Let_def touched_def)
  next
    case (Inr tree)
    with f k show ?thesis
      by (simp add: update_def Let_def touched_def)
  qed
qed

theorem update_duration_floor_witness:
  "(- 0.5 :: real) \<le> 0 \<and>
   fst (update_layout demo_encode (demo_stats False) world0) = Inr demo_tree \<and>
   countdown (fst (update demo_encode (demo_stats False) (- 0.5) [None, Some CHR ''a''] world0))
     = 0.1 \<and>
   (\<exists>rest. logger (snd (update demo_encode (demo_stats False) (- 0.5) [None, Some CHR ''a'']
                          world0)) =
      logger world0 @ Warning ''Update and export time higher than refresh_time.'' # rest) \<and>
   returned (fst (update demo_encode (demo_stats False) (- 0.5) [None, Some CHR ''a''] world0))
     = Inr False \<and>
   (0 :: real) < 3 \<and>
   countdown (fst (update demo_encode (demo_stats False) 3 [None, Some CHR ''a''] world0)) = 3 \<and>
   returned (fst (update demo_encode (demo_stats True) 3 [None, Some CHR ''a''] world0))
     = Inl (Raised ''mem'') \<and>
   fst (update_layout demo_encode (demo_stats True) world0) = Inl (Raised ''mem'')"
proof -
  have r: "returned (fst (update demo_encode (demo_stats False) (- 0.5) [None, Some CHR ''a'']
             world0)) = Inr False"
    by code_simp
  have e: "returned (fst (update demo_encode (demo_stats True) 3 [None, Some CHR ''a''] world0))
             = Inl (Raised ''mem'')"
    using demo_layout_raises
    by (cases "update_layout demo_encode (demo_stats True) world0")
       (simp add: update_def Let_def)
  from update_duration_floor [of "- 0.5" demo_encode "demo_stats False" "[None, Some CHR ''a'']" world0]
       update_duration_floor [of 3 demo_encode "demo_stats False" "[None, Some CHR ''a'']" world0]
       update_duration_floor [of 3 demo_encode "demo_stats True" "[None, Some CHR ''a'']" world0]
       r e demo_layout demo_layout_raises
  show ?thesis by simp
qed

end
